theory Spec2Isabelle
  imports Complex_Main "HOL-Library.AList" "HOL-Library.Word"
begin

unbundle bit_operations_syntax

section \<open>Numbers, objects and errors\<close>

text \<open>
  The library computes with JavaScript numbers. They are embedded as
  \<^typ>\<open>real\<close>: sums, products, quotients, \<open>Math.exp\<close> and
  \<open>Math.log\<close> are the real operations, so rounding, \<open>NaN\<close> and the
  infinities are outside the embedding. The only machine arithmetic kept bit-exact is
  the 32-bit state of the pseudo-random generator.

  A plain object (\<open>Record<K, V>\<close>) is an association list in insertion order.
  \<open>Object.keys\<close> is the list of first components, a property read is
  \<^const>\<open>map_of\<close>, and a property write is \<^const>\<open>AList.update\<close>,
  which overwrites in place or appends a new key at the end.
\<close>

datatype error = TypeError

type_synonym ('k, 'v) obj = "('k \<times> 'v) list"

definition keys :: "('k, 'v) obj \<Rightarrow> 'k list" where
  "keys ob = map fst ob"

text \<open>\<open>ob[k] ?? d\<close>: the stored value, or \<open>d\<close> when the key is absent.\<close>

definition get_or :: "('k, 'v) obj \<Rightarrow> 'k \<Rightarrow> 'v \<Rightarrow> 'v" where
  "get_or ob k d = (case map_of ob k of Some v \<Rightarrow> v | None \<Rightarrow> d)"

text \<open>
  \<open>ob[k]\<close> used as a number. On a key that is absent JavaScript reads
  \<open>undefined\<close>, which arithmetic turns into \<open>NaN\<close>; the embedding leaves
  that value unspecified.
\<close>

definition num_at :: "('k, real) obj \<Rightarrow> 'k \<Rightarrow> real" where
  "num_at ob k = (case map_of ob k of Some v \<Rightarrow> v | None \<Rightarrow> undefined)"

type_synonym 's Distribution = "('s, real) obj"
type_synonym 'o Preferences = "('o, real) obj"

text \<open>
  A property read with a key that the caller chooses freely. A plain object inherits
  from \<open>Object.prototype\<close>: a key that is not an own property but names one of
  its members reads that member, a built-in function of the engine (or, under
  \<open>__proto__\<close>, the prototype itself), and not \<open>undefined\<close>. The names are those
  of ECMAScript with its Annex B, the prototype as the engine provides it. \<^const>\<open>get_or\<close> and \<^const>\<open>num_at\<close> are
  used where the key is a configured state, observation or action.
\<close>

definition Object_prototype_members :: "string list" where
  "Object_prototype_members =
     [''constructor'', ''__defineGetter__'', ''__defineSetter__'', ''hasOwnProperty'',
      ''__lookupGetter__'', ''__lookupSetter__'', ''isPrototypeOf'', ''propertyIsEnumerable'',
      ''toString'', ''valueOf'', ''__proto__'', ''toLocaleString'']"

datatype 'v slot = Own 'v | Inherited | Missing

definition slot_of :: "(string, 'v) obj \<Rightarrow> string \<Rightarrow> 'v slot" where
  "slot_of ob k =
     (case map_of ob k of
        Some v \<Rightarrow> Own v
      | None \<Rightarrow> if k \<in> set Object_prototype_members then Inherited else Missing)"

text \<open>
  What the engine's built-in objects hold is not part of this development. The three
  constants below stand for it and are left unspecified: the member under a name where
  the program takes it for a value of its own, the number \<open>member[s] ?? 0\<close> (for
  example \<open>1\<close> for the \<open>length\<close> of \<open>constructor\<close>), and whether the engine
  refuses a write to \<open>member[s]\<close> (as it does, in strict mode, for the \<open>length\<close> and
  the \<open>name\<close> of a function).
\<close>

definition builtin_member :: "string \<Rightarrow> 'v" where
  "builtin_member k = undefined k"

definition builtin_entry :: "string \<Rightarrow> 's \<Rightarrow> real" where
  "builtin_entry k s = undefined k s"

definition builtin_protects :: "string \<Rightarrow> 's \<Rightarrow> bool" where
  "builtin_protects k s = undefined k s"

section \<open>Helpers: pseudo-random generator and vector utilities\<close>

text \<open>
  \<open>class Random\<close> (Mulberry32). The field holds a JavaScript number; seeds are
  taken to be integers. \<open>this.state |= 0\<close> is the conversion to a signed 32-bit
  integer, \<open>Math.imul\<close> is multiplication modulo \<open>2\<^sup>3\<^sup>2\<close>,
  \<open>>>>\<close> is the logical shift of the unsigned value.
\<close>

record Random =
  state :: int

definition Random_new :: "int \<Rightarrow> Random" where
  "Random_new seed = \<lparr>state = seed\<rparr>"

definition Random_next :: "Random \<Rightarrow> real \<times> Random" where
  "Random_next r =
     (let s0 = (word_of_int (state r) :: 32 word);
          s1 = s0 + 0x6d2b79f5;
          t0 = (s1 XOR drop_bit 15 s1) * (1 OR s1);
          t1 = (t0 + (t0 XOR drop_bit 7 t0) * (61 OR t0)) XOR t0
      in (real (unat (t1 XOR drop_bit 14 t1)) / 4294967296, r\<lparr>state := sint s1\<rparr>))"

definition Random_reset :: "Random \<Rightarrow> int \<Rightarrow> Random" where
  "Random_reset r seed = r\<lparr>state := seed\<rparr>"

text \<open>
  \<open>LinearAlgebra.softmax\<close>. \<open>exp.reduce((a, b) => a + b)\<close> has no initial
  value: on an empty array it throws a \<open>TypeError\<close>, otherwise it folds from the
  first element.
\<close>

definition softmax :: "real list \<Rightarrow> real \<Rightarrow> error + real list" where
  "softmax arr beta =
     (case arr of
        [] \<Rightarrow> Inl TypeError
      | x # xs \<Rightarrow>
          (let mx = fold max xs x;
               ex = map (\<lambda>x. exp (beta * (x - mx))) arr;
               sum = foldl (+) (hd ex) (tl ex)
           in Inr (map (\<lambda>x. x / sum) ex)))"

definition softmin :: "real list \<Rightarrow> real \<Rightarrow> error + real list" where
  "softmin arr beta = softmax (map (\<lambda>x. - x) arr) beta"

definition LinearAlgebra_normalize :: "real list \<Rightarrow> real list" where
  "LinearAlgebra_normalize arr = (let sum = foldl (+) 0 arr in map (\<lambda>x. x / sum) arr)"

section \<open>Discrete belief\<close>

text \<open>
  \<open>class DiscreteBelief extends Belief\<close>: one public field. The loops that fill a
  fresh object run over \<open>Object.keys\<close>, whose entries are distinct, so every
  assignment adds one property, in order: they are \<^const>\<open>map\<close>s over the keys.
\<close>

record 's DiscreteBelief =
  distribution :: "'s Distribution"

definition DiscreteBelief_states :: "'s DiscreteBelief \<Rightarrow> 's list" where
  "DiscreteBelief_states b = keys (distribution b)"

definition DiscreteBelief_probability :: "'s DiscreteBelief \<Rightarrow> 's \<Rightarrow> real" where
  "DiscreteBelief_probability b s = get_or (distribution b) s 0"

definition DiscreteBelief_copy :: "'s DiscreteBelief \<Rightarrow> 's DiscreteBelief" where
  "DiscreteBelief_copy b = \<lparr>distribution = distribution b\<rparr>"

text \<open>\<open>DiscreteBelief.update\<close>: the products and their running sum, then the division.\<close>

definition DiscreteBelief_update :: "'s DiscreteBelief \<Rightarrow> 's Distribution \<Rightarrow> 's DiscreteBelief" where
  "DiscreteBelief_update b likelihood =
     (let newDist = map (\<lambda>s. (s, num_at (distribution b) s * get_or likelihood s 0)) (DiscreteBelief_states b);
          sum = foldl (+) 0 (map (\<lambda>s. num_at newDist s) (DiscreteBelief_states b))
      in \<lparr>distribution =
            (if sum > 0 then map (\<lambda>s. (s, num_at newDist s / sum)) (DiscreteBelief_states b)
             else newDist)\<rparr>)"

text \<open>
  \<open>Belief.kl\<close>. \<open>other.probability(state) || 1e-10\<close> replaces a zero by the
  floor.
\<close>

definition Belief_kl :: "'s DiscreteBelief \<Rightarrow> 's DiscreteBelief \<Rightarrow> real" where
  "Belief_kl b other =
     fold (\<lambda>s result.
             (let p = DiscreteBelief_probability b s;
                  q = (if DiscreteBelief_probability other s = 0 then 1 / 10 ^ 10 else DiscreteBelief_probability other s)
              in if p > 0 then result + p * ln (p / q) else result))
          (DiscreteBelief_states b) 0"

section \<open>Discrete observation models\<close>

text \<open>
  \<open>interface IObservationModel\<close>, as far as the scoring functions read it: the
  model object seen at one moment.
\<close>

record ('o, 's) IObservationModel =
  observations :: "'o list"
  getLikelihood :: "'o \<Rightarrow> 's Distribution"
  om_probability :: "'o \<Rightarrow> 's \<Rightarrow> real"

type_synonym ('o, 's) ObservationMatrix = "('o, 's Distribution) obj"

text \<open>
  \<open>matrix[observation] ?? {}\<close> and \<open>matrix[observation]?.[state] ?? 0\<close>, shared by
  the fixed and the learnable model. The matrix and its rows are plain objects and
  both keys are arguments of the call, so both reads see inherited members: an
  unknown observation gives the empty likelihood and probability \<open>0\<close> only when it
  does not name a member of \<open>Object.prototype\<close>.
\<close>

definition matrix_getLikelihood ::
  "(string, 's) ObservationMatrix \<Rightarrow> string \<Rightarrow> 's Distribution" where
  "matrix_getLikelihood mx observation =
     (case slot_of mx observation of
        Own row \<Rightarrow> row
      | Inherited \<Rightarrow> builtin_member observation
      | Missing \<Rightarrow> [])"

definition matrix_probability ::
  "(string, string) ObservationMatrix \<Rightarrow> string \<Rightarrow> string \<Rightarrow> real" where
  "matrix_probability mx observation s =
     (case slot_of mx observation of
        Own row \<Rightarrow>
          (case slot_of row s of
             Own v \<Rightarrow> v
           | Inherited \<Rightarrow> builtin_member s
           | Missing \<Rightarrow> 0)
      | Inherited \<Rightarrow> builtin_entry observation s
      | Missing \<Rightarrow> 0)"

text \<open>\<open>class DiscreteObservation\<close>: a fixed matrix.\<close>

record ('o, 's) DiscreteObservation =
  matrix :: "('o, 's) ObservationMatrix"

definition DiscreteObservation_model ::
  "(string, string) DiscreteObservation \<Rightarrow> (string, string) IObservationModel" where
  "DiscreteObservation_model om =
     \<lparr>observations = keys (matrix om),
      getLikelihood = matrix_getLikelihood (matrix om),
      om_probability = matrix_probability (matrix om)\<rparr>"

text \<open>
  \<open>class DirichletObservation\<close>: the public pseudo-counts and the private cache
  \<open>_matrix\<close> of the derived matrix (\<open>null\<close> is \<^const>\<open>None\<close>). The
  constructor's deep copy is the identity on values.
\<close>

record ('o, 's) DirichletObservation =
  concentrations :: "('o, ('s, real) obj) obj"
  matrix_cache :: "('o, 's) ObservationMatrix option"

definition DirichletObservation_new ::
  "('o, ('s, real) obj) obj \<Rightarrow> ('o, 's) DirichletObservation" where
  "DirichletObservation_new conc = \<lparr>concentrations = conc, matrix_cache = None\<rparr>"

definition DirichletObservation_observations :: "('o, 's) DirichletObservation \<Rightarrow> 'o list" where
  "DirichletObservation_observations m = keys (concentrations m)"

text \<open>
  \<open>get states\<close>: the keys of the first observation's row;
  \<open>this.concentrations[firstObs] || {}\<close> is the empty object when there is no
  observation at all.
\<close>

definition DirichletObservation_states :: "('o, 's) DirichletObservation \<Rightarrow> 's list" where
  "DirichletObservation_states m =
     (case concentrations m of [] \<Rightarrow> [] | (firstObs, row) # _ \<Rightarrow> keys row)"

text \<open>
  \<open>normalize\<close>: column sums over the observations, then the guarded division.
  \<open>this.concentrations[o][s]\<close> reads a known row \<open>o\<close>.
\<close>

definition DirichletObservation_normalize ::
  "('o, 's) DirichletObservation \<Rightarrow> ('o, 's) ObservationMatrix" where
  "DirichletObservation_normalize m =
     (let obs = DirichletObservation_observations m;
          sts = DirichletObservation_states m;
          colSums = map (\<lambda>s. (s, foldl (+) 0
                      (map (\<lambda>ob. num_at (get_or (concentrations m) ob []) s) obs))) sts
      in map (\<lambda>ob. (ob, map (\<lambda>s. (s,
                 if num_at colSums s > 0
                 then num_at (get_or (concentrations m) ob []) s / num_at colSums s
                 else 0)) sts)) obs)"

text \<open>\<open>get matrix\<close>: fills the cache on the first read after an invalidation.\<close>

definition DirichletObservation_matrix ::
  "('o, 's) DirichletObservation \<Rightarrow> ('o, 's) ObservationMatrix \<times> ('o, 's) DirichletObservation" where
  "DirichletObservation_matrix m =
     (case matrix_cache m of
        None \<Rightarrow> (let mx = DirichletObservation_normalize m in (mx, m\<lparr>matrix_cache := Some mx\<rparr>))
      | Some mx \<Rightarrow> (mx, m))"

definition DirichletObservation_getLikelihood ::
  "(string, 's) DirichletObservation \<Rightarrow> string \<Rightarrow>
   's Distribution \<times> (string, 's) DirichletObservation" where
  "DirichletObservation_getLikelihood m observation =
     (let (mx, m') = DirichletObservation_matrix m in (matrix_getLikelihood mx observation, m'))"

definition DirichletObservation_probability ::
  "(string, string) DirichletObservation \<Rightarrow> string \<Rightarrow> string \<Rightarrow>
   real \<times> (string, string) DirichletObservation" where
  "DirichletObservation_probability m observation s =
     (let (mx, m') = DirichletObservation_matrix m in (matrix_probability mx observation s, m'))"


text \<open>
  \<open>learn\<close>. Each round reads the row \<open>this.concentrations[observation]\<close> and
  increments its entry for the state.
  \<^item> The observation is an own key: the entry of its row is overwritten with its value
    plus \<open>posteriorBelief[state] ?? 0\<close>.
  \<^item> The observation is no key and names no member of \<open>Object.prototype\<close>: the row is
    \<open>undefined\<close> and the property access on it throws a \<open>TypeError\<close>.
  \<^item> The observation is no key but names a member of \<open>Object.prototype\<close>: the row is
    that built-in object. The increment reads and writes a property of the built-in
    object, not a pseudo-count: the pseudo-counts stay as they are, and the round
    throws only if the engine refuses the write.
  The cache is cleared after the loop.
\<close>

definition learn_step ::
  "string \<Rightarrow> 's Distribution \<Rightarrow> 's \<Rightarrow> error + (string, ('s, real) obj) obj \<Rightarrow>
   error + (string, ('s, real) obj) obj" where
  "learn_step observation posteriorBelief s acc =
     (case acc of
        Inl e \<Rightarrow> Inl e
      | Inr conc \<Rightarrow>
          (case slot_of conc observation of
             Missing \<Rightarrow> Inl TypeError
           | Inherited \<Rightarrow> if builtin_protects observation s then Inl TypeError else Inr conc
           | Own row \<Rightarrow>
               Inr (AList.update observation
                      (AList.update s (num_at row s + get_or posteriorBelief s 0) row) conc)))"

definition DirichletObservation_learn ::
  "(string, 's) DirichletObservation \<Rightarrow> string \<Rightarrow> 's Distribution \<Rightarrow>
   error + (string, 's) DirichletObservation" where
  "DirichletObservation_learn m observation posteriorBelief =
     (case fold (learn_step observation posteriorBelief) (DirichletObservation_states m)
             (Inr (concentrations m)) of
        Inl e \<Rightarrow> Inl e
      | Inr conc \<Rightarrow> Inr \<lparr>concentrations = conc, matrix_cache = None\<rparr>)"

text \<open>The entry \<open>a[o][s]\<close> of a concentration structure.\<close>

definition conc_at :: "('o, ('s, real) obj) obj \<Rightarrow> 'o \<Rightarrow> 's \<Rightarrow> real" where
  "conc_at conc ob s = num_at (get_or conc ob []) s"

section \<open>Expected free energy of a predicted discrete belief\<close>

text \<open>\<open>computeAmbiguity\<close> and \<open>computeRisk\<close> of the factory module.\<close>

definition computeAmbiguity ::
  "'s DiscreteBelief \<Rightarrow> ('o, 's) IObservationModel \<Rightarrow> real" where
  "computeAmbiguity predictedBelief observationModel =
     fold (\<lambda>s ambiguity.
             (let stateProb = DiscreteBelief_probability predictedBelief s
              in fold (\<lambda>ob ambiguity.
                         (let obsProb = om_probability observationModel ob s
                          in if obsProb > 0 \<and> stateProb > 0
                             then ambiguity - stateProb * obsProb * ln obsProb
                             else ambiguity))
                      (observations observationModel) ambiguity))
          (DiscreteBelief_states predictedBelief) 0"

definition expectedObsProb ::
  "'s DiscreteBelief \<Rightarrow> ('o, 's) IObservationModel \<Rightarrow> 'o \<Rightarrow> real" where
  "expectedObsProb predictedBelief observationModel ob =
     fold (\<lambda>s acc. acc + om_probability observationModel ob s *
                          DiscreteBelief_probability predictedBelief s)
          (DiscreteBelief_states predictedBelief) 0"

definition computeRisk ::
  "'s DiscreteBelief \<Rightarrow> ('o, 's) IObservationModel \<Rightarrow> 'o Preferences \<Rightarrow> real" where
  "computeRisk predictedBelief observationModel preferences =
     fold (\<lambda>ob risk.
             (let e = expectedObsProb predictedBelief observationModel ob;
                  preferredLogProb = get_or preferences ob (- 10)
              in if e > 0 then risk - e * preferredLogProb else risk))
          (observations observationModel) 0"

section \<open>Gaussian belief and linear Gaussian observation model\<close>

text \<open>\<open>class GaussianBelief\<close>: two read-only fields, no check in the constructor.\<close>

record GaussianBelief =
  mean :: real
  variance :: real

record GaussianObservationConfig =
  cfg_scale :: real
  cfg_bias :: "real option"
  cfg_noise :: real

record GaussianObservation =
  scale :: real
  bias :: real
  noise :: real

definition GaussianObservation_new :: "GaussianObservationConfig \<Rightarrow> GaussianObservation" where
  "GaussianObservation_new config =
     \<lparr>scale = cfg_scale config,
      bias = (case cfg_bias config of Some b \<Rightarrow> b | None \<Rightarrow> 0),
      noise = cfg_noise config\<rparr>"

text \<open>\<open>GaussianObservation.update\<close>, the Kalman step, with the source's locals.\<close>

definition GaussianObservation_update ::
  "GaussianObservation \<Rightarrow> GaussianBelief \<Rightarrow> real \<Rightarrow> GaussianBelief" where
  "GaussianObservation_update om belief observation =
     (let c = scale om;
          predictedObs = c * mean belief + bias om;
          S = c * c * variance belief + noise om;
          K = (c * variance belief) / S
      in \<lparr>mean = mean belief + K * (observation - predictedObs),
          variance = (1 - K * c) * variance belief\<rparr>)"

definition GaussianObservation_expectedObservation ::
  "GaussianObservation \<Rightarrow> GaussianBelief \<Rightarrow> real" where
  "GaussianObservation_expectedObservation om belief = scale om * mean belief + bias om"

text \<open>The gain of the specification: \<open>K = \<sigma>\<^sup>2 c / (c\<^sup>2 \<sigma>\<^sup>2 + R)\<close>.\<close>

definition kalman_gain :: "real \<Rightarrow> real \<Rightarrow> real \<Rightarrow> real" where
  "kalman_gain c v R = v * c / (c\<^sup>2 * v + R)"

text \<open>\<open>GaussianBelief.copy\<close>.\<close>

definition GaussianBelief_copy :: "GaussianBelief \<Rightarrow> GaussianBelief" where
  "GaussianBelief_copy b = \<lparr>mean = mean b, variance = variance b\<rparr>"

section \<open>Policy search of the generic agent\<close>

text \<open>
  The agent reads its transition model through
  \<open>{ readonly actions: A[]; predict(belief: B, action: A): B }\<close>.
\<close>

record ('a, 'b) TransitionModel =
  actions :: "'a list"
  predict :: "'b \<Rightarrow> 'a \<Rightarrow> 'b"

text \<open>A beam entry \<open>{ policy, efe, belief }\<close>.\<close>

record ('a, 'b) beam =
  policy :: "'a list"
  efe :: real
  belief :: 'b

text \<open>The first loop of \<open>Agent.act\<close>: one beam per action.\<close>

definition initial_beams ::
  "('a, 'b) TransitionModel \<Rightarrow> ('b \<Rightarrow> real) \<Rightarrow> 'b \<Rightarrow> ('a, 'b) beam list" where
  "initial_beams tm computeEFE b =
     map (\<lambda>action.
            (let predicted = predict tm b action;
                 e = computeEFE predicted
             in \<lparr>policy = [action], efe = e, belief = predicted\<rparr>))
         (actions tm)"

text \<open>One round of the depth loop: every beam, extended by every action.\<close>

definition expand_beams ::
  "('a, 'b) TransitionModel \<Rightarrow> ('b \<Rightarrow> real) \<Rightarrow> ('a, 'b) beam list \<Rightarrow> ('a, 'b) beam list" where
  "expand_beams tm computeEFE beams =
     concat (map (\<lambda>bm.
                    map (\<lambda>action.
                           (let predicted = predict tm (belief bm) action;
                                e = computeEFE predicted
                            in \<lparr>policy = policy bm @ [action],
                                efe = efe bm + e,
                                belief = predicted\<rparr>))
                        (actions tm))
                 beams)"

text \<open>
  The pruning branch. \<open>Array.prototype.sort\<close> is stable and the comparator orders
  by \<open>efe\<close> ascending, which is \<^const>\<open>sort_key\<close>; \<open>slice(0, w)\<close> is
  \<^const>\<open>take\<close>.
\<close>

definition prune :: "nat \<Rightarrow> ('a, 'b) beam list \<Rightarrow> ('a, 'b) beam list" where
  "prune beamWidth nextBeams =
     (if beamWidth > 0 \<and> length nextBeams > beamWidth
      then take beamWidth (sort_key efe nextBeams)
      else nextBeams)"

text \<open>\<open>for (let depth = 1; depth < this._planningHorizon; depth++)\<close>.\<close>

function search_loop ::
  "('a, 'b) TransitionModel \<Rightarrow> ('b \<Rightarrow> real) \<Rightarrow> nat \<Rightarrow> nat \<Rightarrow> nat \<Rightarrow>
   ('a, 'b) beam list \<Rightarrow> ('a, 'b) beam list" where
  "search_loop tm computeEFE beamWidth horizon depth beams =
     (if depth < horizon
      then search_loop tm computeEFE beamWidth horizon (depth + 1)
             (prune beamWidth (expand_beams tm computeEFE beams))
      else beams)"
  by pat_completeness auto
termination
  by (relation "measure (\<lambda>(tm, computeEFE, beamWidth, horizon, depth, beams). horizon - depth)") auto

declare search_loop.simps [simp del]

definition beam_search ::
  "('a, 'b) TransitionModel \<Rightarrow> ('b \<Rightarrow> real) \<Rightarrow> nat \<Rightarrow> nat \<Rightarrow> 'b \<Rightarrow> ('a, 'b) beam list" where
  "beam_search tm computeEFE beamWidth horizon b =
     search_loop tm computeEFE beamWidth horizon 1 (initial_beams tm computeEFE b)"

section \<open>Sampling an action\<close>

type_synonym 'a Habits = "('a, real) obj"

text \<open>\<open>getPolicyHabit\<close>: the product of the habit weights, \<open>1\<close> for unlisted actions.\<close>

definition getPolicyHabit :: "'a Habits \<Rightarrow> 'a list \<Rightarrow> real" where
  "getPolicyHabit habits pol =
     (if length (keys habits) = 0 then 1
      else fold (\<lambda>action prior. prior * get_or habits action 1) pol 1)"

text \<open>
  The loop of \<open>sampleIndex\<close>: the first index whose cumulative probability exceeds
  the draw, if any.
\<close>

fun sampleIndex_loop :: "real \<Rightarrow> real list \<Rightarrow> int \<Rightarrow> real \<Rightarrow> int option" where
  "sampleIndex_loop rand [] i cumulative = None"
| "sampleIndex_loop rand (p # probs) i cumulative =
     (if rand < cumulative + p then Some i
      else sampleIndex_loop rand probs (i + 1) (cumulative + p))"

definition sampleIndex :: "Random \<Rightarrow> real list \<Rightarrow> int \<times> Random" where
  "sampleIndex r probs =
     (let (rand, r') = Random_next r
      in (case sampleIndex_loop rand probs 0 0 of
            Some i \<Rightarrow> (i, r')
          | None \<Rightarrow> (int (length probs) - 1, r')))"

text \<open>
  The tail of \<open>act\<close>, from the surviving policies and their scores: softmin, the
  optional habit weighting, one draw, and the first action of the policy drawn.
  An error leaves the generator where it was when the error was raised.
\<close>

definition select_action ::
  "'a list list \<Rightarrow> real list \<Rightarrow> real \<Rightarrow> 'a Habits \<Rightarrow> Random \<Rightarrow> (error + 'a) \<times> Random" where
  "select_action policies policyEFEs beta habits r =
     (case softmin policyEFEs beta of
        Inl e \<Rightarrow> (Inl e, r)
      | Inr probs \<Rightarrow>
          (let policyProbs =
                 (if length (keys habits) > 0
                  then LinearAlgebra_normalize
                         (map (\<lambda>(p, pol). p * getPolicyHabit habits pol) (zip probs policies))
                  else probs);
               (idx, r') = sampleIndex r policyProbs
           in if 0 \<le> idx \<and> nat idx < length policies
              then (Inr (hd (policies ! nat idx)), r')
              else (Inl TypeError, r')))"

section \<open>The generic agent\<close>

text \<open>
  \<open>class Agent<A, B, O>\<close>. The agent keeps references to its model objects and to the
  two callbacks; learnable models change when the learning callback runs. The state
  of the model objects is the component \<open>models\<close>, and the agent's view of them
  takes that state as an argument. A belief is a value, so \<open>belief.copy()\<close> is
  the identity. Reads of a model are pure: a lazily cached matrix is a function of
  the pseudo-counts it is derived from.
\<close>

record ('a, 'b, 'o, 'm) Agent =
  agent_belief :: 'b
  agent_random :: Random
  agent_planningHorizon :: nat
  agent_precision :: real
  agent_habits :: "'a Habits"
  agent_beamWidth :: nat
  agent_previousBelief :: "'b option"
  agent_previousAction :: "'a option"
  transitionModel :: "'m \<Rightarrow> ('a, 'b) TransitionModel"
  observationModel_update :: "'m \<Rightarrow> 'b \<Rightarrow> 'o \<Rightarrow> 'b"
  computeEFE :: "'m \<Rightarrow> 'b \<Rightarrow> real"
  afterObserve :: "('o \<Rightarrow> 'b \<Rightarrow> 'a option \<Rightarrow> 'b option \<Rightarrow> 'm \<Rightarrow> 'm \<times> error option) option"
  models :: 'm

text \<open>
  The constructor. \<open>random ?? new Random()\<close> seeds a fresh generator from
  \<open>Date.now()\<close>, the argument \<open>now\<close>. The horizon, the precision and the beam
  width are clamped; nothing is validated and no statement throws, so the result is
  always \<^const>\<open>Inr\<close>.
\<close>

definition Agent_new ::
  "'b \<Rightarrow> ('m \<Rightarrow> ('a, 'b) TransitionModel) \<Rightarrow> ('m \<Rightarrow> 'b \<Rightarrow> 'o \<Rightarrow> 'b) \<Rightarrow> ('m \<Rightarrow> 'b \<Rightarrow> real) \<Rightarrow>
   Random option \<Rightarrow> real \<Rightarrow> real \<Rightarrow> 'a Habits \<Rightarrow> real \<Rightarrow>
   ('o \<Rightarrow> 'b \<Rightarrow> 'a option \<Rightarrow> 'b option \<Rightarrow> 'm \<Rightarrow> 'm \<times> error option) option \<Rightarrow>
   'm \<Rightarrow> int \<Rightarrow> error + ('a, 'b, 'o, 'm) Agent" where
  "Agent_new b tm om_update scorer random planningHorizon precision habits beamWidth
     after m now =
     Inr \<lparr>agent_belief = b,
          agent_random = (case random of Some r \<Rightarrow> r | None \<Rightarrow> Random_new now),
          agent_planningHorizon = nat (max 1 \<lfloor>planningHorizon\<rfloor>),
          agent_precision = max 0 precision,
          agent_habits = habits,
          agent_beamWidth = nat (max 0 \<lfloor>beamWidth\<rfloor>),
          agent_previousBelief = None,
          agent_previousAction = None,
          transitionModel = tm,
          observationModel_update = om_update,
          computeEFE = scorer,
          afterObserve = after,
          models = m\<rparr>"


definition Agent_resetBelief :: "('a, 'b, 'o, 'm) Agent \<Rightarrow> 'b \<Rightarrow> ('a, 'b, 'o, 'm) Agent" where
  "Agent_resetBelief ag b = ag\<lparr>agent_belief := b\<rparr>"

text \<open>\<open>act\<close>: the beam search, then the selection; only the generator is written.\<close>

definition Agent_act :: "('a, 'b, 'o, 'm) Agent \<Rightarrow> (error + 'a) \<times> ('a, 'b, 'o, 'm) Agent" where
  "Agent_act ag =
     (let beams = beam_search (transitionModel ag (models ag)) (computeEFE ag (models ag))
                    (agent_beamWidth ag) (agent_planningHorizon ag) (agent_belief ag);
          (res, r') = select_action (map policy beams) (map efe beams)
                        (agent_precision ag) (agent_habits ag) (agent_random ag)
      in (res, ag\<lparr>agent_random := r'\<rparr>))"


section \<open>The earlier discrete agent: full enumeration\<close>

text \<open>
  The first \<open>class Agent<A, O, S>\<close> of \<open>agent.model.ts\<close>, here
  \<open>DiscreteAgent\<close>: it enumerates every policy recursively and scores each one
  from the current belief.
\<close>

record ('a, 'o, 's) DiscreteAgent =
  da_belief :: "'s DiscreteBelief"
  da_transitionModel :: "('a, 's DiscreteBelief) TransitionModel"
  da_observationModel :: "('o, 's) IObservationModel"
  da_preferences :: "'o Preferences"
  da_random :: Random
  da_planningHorizon :: nat
  da_precision :: real
  da_habits :: "'a Habits"

fun generatePolicies_rec :: "'a list \<Rightarrow> nat \<Rightarrow> 'a list list" where
  "generatePolicies_rec acts depth =
     (if depth \<le> 1 then map (\<lambda>a. [a]) acts
      else concat (map (\<lambda>action. map (\<lambda>sub. action # sub) (generatePolicies_rec acts (depth - 1)))
                       acts))"

declare generatePolicies_rec.simps [simp del]

definition DiscreteAgent_generatePolicies :: "('a, 'o, 's) DiscreteAgent \<Rightarrow> nat \<Rightarrow> 'a list list" where
  "DiscreteAgent_generatePolicies ag depth =
     generatePolicies_rec (actions (da_transitionModel ag)) depth"

definition DiscreteAgent_computeAmbiguity ::
  "('a, 'o, 's) DiscreteAgent \<Rightarrow> 's DiscreteBelief \<Rightarrow> real" where
  "DiscreteAgent_computeAmbiguity ag predictedBelief =
     fold (\<lambda>s ambiguity.
             (let stateProb = DiscreteBelief_probability predictedBelief s
              in fold (\<lambda>ob ambiguity.
                         (let obsProb = om_probability (da_observationModel ag) ob s
                          in if obsProb > 0 \<and> stateProb > 0
                             then ambiguity - stateProb * obsProb * ln obsProb
                             else ambiguity))
                      (observations (da_observationModel ag)) ambiguity))
          (DiscreteBelief_states predictedBelief) 0"

definition DiscreteAgent_computeRisk ::
  "('a, 'o, 's) DiscreteAgent \<Rightarrow> 's DiscreteBelief \<Rightarrow> real" where
  "DiscreteAgent_computeRisk ag predictedBelief =
     (let prefs = da_preferences ag
      in fold (\<lambda>ob risk.
                 (let e = fold (\<lambda>s acc. acc + om_probability (da_observationModel ag) ob s *
                                              DiscreteBelief_probability predictedBelief s)
                               (DiscreteBelief_states predictedBelief) 0;
                      preferredLogProb = get_or prefs ob (- 10)
                  in if e > 0 then risk - e * preferredLogProb else risk))
              (observations (da_observationModel ag)) 0)"

text \<open>\<open>evaluatePolicy\<close>: the loop state is \<open>(totalEFE, currentBelief)\<close>.\<close>

definition DiscreteAgent_evaluatePolicy :: "('a, 'o, 's) DiscreteAgent \<Rightarrow> 'a list \<Rightarrow> real" where
  "DiscreteAgent_evaluatePolicy ag pol =
     fst (fold (\<lambda>action (totalEFE, currentBelief).
                  (let predicted = predict (da_transitionModel ag) currentBelief action
                   in (totalEFE + (DiscreteAgent_computeAmbiguity ag predicted +
                                   DiscreteAgent_computeRisk ag predicted),
                       predicted)))
               pol (0, da_belief ag))"

definition DiscreteAgent_act ::
  "('a, 'o, 's) DiscreteAgent \<Rightarrow> (error + 'a) \<times> ('a, 'o, 's) DiscreteAgent" where
  "DiscreteAgent_act ag =
     (let policies = DiscreteAgent_generatePolicies ag (da_planningHorizon ag);
          policyEFEs = map (DiscreteAgent_evaluatePolicy ag) policies;
          (res, r') = select_action policies policyEFEs (da_precision ag) (da_habits ag)
                        (da_random ag)
      in (res, ag\<lparr>da_random := r'\<rparr>))"

text \<open>\<open>observe\<close> of the earlier agent: the Bayesian update with the likelihood of the observation.\<close>

definition DiscreteAgent_observe ::
  "('a, 'o, 's) DiscreteAgent \<Rightarrow> 'o \<Rightarrow> ('a, 'o, 's) DiscreteAgent" where
  "DiscreteAgent_observe ag observation =
     ag\<lparr>da_belief := DiscreteBelief_update (da_belief ag)
                        (getLikelihood (da_observationModel ag) observation)\<rparr>"

section \<open>Discrete transition model\<close>

text \<open>
  \<open>class DiscreteTransition\<close>: \<open>action \<rightarrow> state \<rightarrow> next state \<rightarrow> probability\<close>.
  \<open>predict\<close> starts from \<open>0\<close> for every state of the model and adds
  \<open>transition[nextState] * currentProb\<close> for every state of the belief.
\<close>

record ('a, 's) DiscreteTransition =
  transition_matrix :: "('a, ('s, 's Distribution) obj) obj"

definition DiscreteTransition_states :: "('a, 's) DiscreteTransition \<Rightarrow> 's list" where
  "DiscreteTransition_states t =
     (case transition_matrix t of [] \<Rightarrow> [] | (firstAction, rows) # _ \<Rightarrow> keys rows)"

definition DiscreteTransition_getTransition ::
  "('a, 's) DiscreteTransition \<Rightarrow> 's \<Rightarrow> 'a \<Rightarrow> 's Distribution" where
  "DiscreteTransition_getTransition t s action =
     (case map_of (transition_matrix t) action of None \<Rightarrow> [] | Some rows \<Rightarrow> get_or rows s [])"

definition DiscreteTransition_predict ::
  "('a, 's) DiscreteTransition \<Rightarrow> 's DiscreteBelief \<Rightarrow> 'a \<Rightarrow> 's DiscreteBelief" where
  "DiscreteTransition_predict t b action =
     \<lparr>distribution =
        fold (\<lambda>currentState newDist.
                (let transition = DiscreteTransition_getTransition t currentState action;
                     currentProb = DiscreteBelief_probability b currentState
                 in fold (\<lambda>nextState newDist.
                            AList.update nextState
                              (num_at newDist nextState + num_at transition nextState * currentProb)
                              newDist)
                         (keys transition) newDist))
             (DiscreteBelief_states b)
             (map (\<lambda>s. (s, 0)) (DiscreteTransition_states t))\<rparr>"

definition DiscreteTransition_model ::
  "('a, 's) DiscreteTransition \<Rightarrow> ('a, 's DiscreteBelief) TransitionModel" where
  "DiscreteTransition_model t =
     \<lparr>actions = keys (transition_matrix t), predict = DiscreteTransition_predict t\<rparr>"

section \<open>Factories\<close>

definition exportBelief :: "'s DiscreteBelief \<Rightarrow> 's Distribution" where
  "exportBelief b = map (\<lambda>s. (s, DiscreteBelief_probability b s)) (DiscreteBelief_states b)"

text \<open>
  \<open>interface AgentConfig\<close>. The two model objects are given by their views in a
  model state and by their optional \<open>learn\<close> methods; \<open>cfg_update\<close> is the
  \<open>update\<close> method that the agent calls on the observation model.
\<close>

record ('a, 'o, 's, 'm) AgentConfig =
  cfg_belief :: "'s DiscreteBelief"
  cfg_transitionModel :: "'m \<Rightarrow> ('a, 's DiscreteBelief) TransitionModel"
  cfg_transition_learn :: "('a \<Rightarrow> 's Distribution \<Rightarrow> 's Distribution \<Rightarrow> 'm \<Rightarrow> 'm \<times> error option) option"
  cfg_observationModel :: "'m \<Rightarrow> ('o, 's) IObservationModel"
  cfg_update :: "'m \<Rightarrow> 's DiscreteBelief \<Rightarrow> 'o \<Rightarrow> 's DiscreteBelief"
  cfg_observation_learn :: "('o \<Rightarrow> 's Distribution \<Rightarrow> 'm \<Rightarrow> 'm \<times> error option) option"
  cfg_preferences :: "'o Preferences"
  cfg_seed :: "int option"
  cfg_planningHorizon :: "real option"
  cfg_precision :: "real option"
  cfg_habits :: "'a Habits option"
  cfg_beamWidth :: "real option"
  cfg_models :: 'm



text \<open>The closure \<open>computeEFE\<close> of \<open>createAgent\<close>.\<close>

definition createAgent_computeEFE ::
  "('a, 'o, 's, 'm) AgentConfig \<Rightarrow> 'm \<Rightarrow> 's DiscreteBelief \<Rightarrow> real" where
  "createAgent_computeEFE config m predicted =
     computeAmbiguity predicted (cfg_observationModel config m) +
     computeRisk predicted (cfg_observationModel config m) (cfg_preferences config)"

text \<open>The closure \<open>afterObserve\<close> of \<open>createAgent\<close>; \<open>learn?.(...)\<close> skips an absent method.\<close>

definition createAgent_afterObserve ::
  "('a, 'o, 's, 'm) AgentConfig \<Rightarrow> 'o \<Rightarrow> 's DiscreteBelief \<Rightarrow> 'a option \<Rightarrow>
   's DiscreteBelief option \<Rightarrow> 'm \<Rightarrow> 'm \<times> error option" where
  "createAgent_afterObserve config observation b previousAction previousBelief m =
     (let posteriorDist = exportBelief b;
          (m1, err) = (case cfg_observation_learn config of
                         None \<Rightarrow> (m, None)
                       | Some lrn \<Rightarrow> lrn observation posteriorDist m)
      in case err of
           Some e \<Rightarrow> (m1, Some e)
         | None \<Rightarrow>
             (case (previousAction, previousBelief) of
                (Some pa, Some pb) \<Rightarrow>
                  (let prevDist = exportBelief pb
                   in case cfg_transition_learn config of
                        None \<Rightarrow> (m1, None)
                      | Some lrn \<Rightarrow> lrn pa prevDist posteriorDist m1)
              | _ \<Rightarrow> (m1, None)))"

text \<open>\<open>createAgent\<close>. Without a seed the generator is seeded from the clock.\<close>

definition createAgent ::
  "('a, 'o, 's, 'm) AgentConfig \<Rightarrow> int \<Rightarrow> error + ('a, 's DiscreteBelief, 'o, 'm) Agent" where
  "createAgent config now =
     (let random = (case cfg_seed config of Some seed \<Rightarrow> Random_new seed | None \<Rightarrow> Random_new now)
      in Agent_new (cfg_belief config) (cfg_transitionModel config) (cfg_update config)
           (createAgent_computeEFE config) (Some random)
           (case cfg_planningHorizon config of Some h \<Rightarrow> h | None \<Rightarrow> 1)
           (case cfg_precision config of Some x \<Rightarrow> x | None \<Rightarrow> 1)
           (case cfg_habits config of Some h \<Rightarrow> h | None \<Rightarrow> [])
           (case cfg_beamWidth config of Some w \<Rightarrow> w | None \<Rightarrow> 0)
           (Some (createAgent_afterObserve config))
           (cfg_models config) now)"

text \<open>
  \<open>class GaussianTransition\<close>: per action a function and a process noise. The agent
  passes only actions of \<open>actions\<close>; for any other key \<open>config[action]\<close> is
  \<open>undefined\<close>, which the embedding leaves unspecified.
\<close>

record GaussianActionModel =
  fn :: "real \<Rightarrow> real"
  fn_noise :: real

record 'a GaussianTransition =
  gt_config :: "('a, GaussianActionModel) obj"
  gt_actions :: "'a list"

definition GaussianTransition_new :: "('a, GaussianActionModel) obj \<Rightarrow> 'a GaussianTransition" where
  "GaussianTransition_new config = \<lparr>gt_config = config, gt_actions = keys config\<rparr>"

definition GaussianTransition_predict ::
  "'a GaussianTransition \<Rightarrow> GaussianBelief \<Rightarrow> 'a \<Rightarrow> GaussianBelief" where
  "GaussianTransition_predict gt b action =
     (case map_of (gt_config gt) action of
        None \<Rightarrow> undefined
      | Some model \<Rightarrow>
          (let newMean = fn model (mean b);
               h = 1 / 10 ^ 5;
               derivative = (fn model (mean b + h) - fn model (mean b - h)) / (2 * h);
               newVariance = derivative * derivative * variance b + fn_noise model
           in \<lparr>mean = newMean, variance = newVariance\<rparr>))"

definition GaussianTransition_model :: "'a GaussianTransition \<Rightarrow> ('a, GaussianBelief) TransitionModel" where
  "GaussianTransition_model gt =
     \<lparr>actions = gt_actions gt, predict = GaussianTransition_predict gt\<rparr>"

record 'a GaussianAgentConfig =
  gcfg_belief :: GaussianBelief
  gcfg_transitionModel :: "'a GaussianTransition"
  gcfg_observationModel :: GaussianObservation
  gcfg_preferences :: "real \<Rightarrow> real"
  gcfg_seed :: "int option"
  gcfg_planningHorizon :: "real option"
  gcfg_precision :: "real option"

text \<open>\<open>createGaussianAgent\<close>: no habits, no beam width, no learning callback.\<close>

definition createGaussianAgent ::
  "'a GaussianAgentConfig \<Rightarrow> int \<Rightarrow> error + ('a, GaussianBelief, real, unit) Agent" where
  "createGaussianAgent config now =
     (let random = (case gcfg_seed config of Some seed \<Rightarrow> Random_new seed | None \<Rightarrow> Random_new now)
      in Agent_new (GaussianBelief_copy (gcfg_belief config))
           (\<lambda>m. GaussianTransition_model (gcfg_transitionModel config))
           (\<lambda>m. GaussianObservation_update (gcfg_observationModel config))
           (\<lambda>m predicted. - gcfg_preferences config
                 (GaussianObservation_expectedObservation (gcfg_observationModel config) predicted))
           (Some random)
           (case gcfg_planningHorizon config of Some h \<Rightarrow> h | None \<Rightarrow> 1)
           (case gcfg_precision config of Some x \<Rightarrow> x | None \<Rightarrow> 1)
           [] 0 None () now)"

section \<open>Sequences of calls\<close>














section \<open>The configuration of the package documentation\<close>

text \<open>
  The example of \<open>createAgent\<close>: two states, two actions, a sensor that is right
  nine times out of ten, horizon \<open>2\<close>, precision \<open>4\<close>, seed \<open>42\<close>. The models
  are fixed, so there is no model state.
\<close>

definition example_transition :: "(string, string) DiscreteTransition" where
  "example_transition =
     \<lparr>transition_matrix =
        [(''stay'', [(''safe'', [(''safe'', 1), (''danger'', 0)]),
                     (''danger'', [(''safe'', 0), (''danger'', 1)])]),
         (''flee'', [(''safe'', [(''safe'', 9 / 10), (''danger'', 1 / 10)]),
                     (''danger'', [(''safe'', 7 / 10), (''danger'', 3 / 10)])])]\<rparr>"

definition example_observation :: "(string, string) DiscreteObservation" where
  "example_observation =
     \<lparr>matrix = [(''calm'', [(''safe'', 9 / 10), (''danger'', 1 / 10)]),
                (''alarm'', [(''safe'', 1 / 10), (''danger'', 9 / 10)])]\<rparr>"

definition example_config :: "(string, string, string, unit) AgentConfig" where
  "example_config =
     \<lparr>cfg_belief = \<lparr>distribution = [(''safe'', 1 / 2), (''danger'', 1 / 2)]\<rparr>,
      cfg_transitionModel = (\<lambda>m. DiscreteTransition_model example_transition),
      cfg_transition_learn = None,
      cfg_observationModel = (\<lambda>m. DiscreteObservation_model example_observation),
      cfg_update = (\<lambda>m b ob. DiscreteBelief_update b
                      (getLikelihood (DiscreteObservation_model example_observation) ob)),
      cfg_observation_learn = None,
      cfg_preferences = [(''calm'', 0), (''alarm'', - 5)],
      cfg_seed = Some 42,
      cfg_planningHorizon = Some 2,
      cfg_precision = Some 4,
      cfg_habits = None,
      cfg_beamWidth = None,
      cfg_models = ()\<rparr>"

text \<open>The same configuration given to the earlier agent.\<close>

definition example_discrete_agent :: "(string, string, string) DiscreteAgent" where
  "example_discrete_agent =
     \<lparr>da_belief = \<lparr>distribution = [(''safe'', 1 / 2), (''danger'', 1 / 2)]\<rparr>,
      da_transitionModel = DiscreteTransition_model example_transition,
      da_observationModel = DiscreteObservation_model example_observation,
      da_preferences = [(''calm'', 0), (''alarm'', - 5)],
      da_random = Random_new 42,
      da_planningHorizon = 2,
      da_precision = 4,
      da_habits = []\<rparr>"

text \<open>
  A Gaussian configuration that is wrong twice: the variance of the belief is not
  positive and the transition model has no action.
\<close>

definition degenerate_config :: "string GaussianAgentConfig" where
  "degenerate_config =
     \<lparr>gcfg_belief = \<lparr>mean = 0, variance = - 1\<rparr>,
      gcfg_transitionModel = GaussianTransition_new [],
      gcfg_observationModel = GaussianObservation_new \<lparr>cfg_scale = 1, cfg_bias = None, cfg_noise = 1\<rparr>,
      gcfg_preferences = uminus,
      gcfg_seed = Some 42,
      gcfg_planningHorizon = None,
      gcfg_precision = None\<rparr>"







section \<open>Quantities named by the specification\<close>

text \<open>The weighted sum \<open>\<Sum>\<^sub>s likelihood(s) \<sqdot> prior(s)\<close> over the states of the prior.\<close>

definition weighted_sum :: "'s DiscreteBelief \<Rightarrow> 's Distribution \<Rightarrow> real" where
  "weighted_sum b likelihood =
     sum_list (map (\<lambda>s. get_or likelihood s 0 * DiscreteBelief_probability b s)
                   (DiscreteBelief_states b))"

text \<open>
  The predicted probability of an observation, \<open>Q(o) = \<Sum>\<^sub>s P(o|s) \<sqdot> Q(s)\<close>, and the
  log-preference of an observation with the default \<open>-10\<close>.
\<close>

definition predicted_observation ::
  "'s DiscreteBelief \<Rightarrow> ('o, 's) IObservationModel \<Rightarrow> 'o \<Rightarrow> real" where
  "predicted_observation b om ob =
     sum_list (map (\<lambda>s. om_probability om ob s * DiscreteBelief_probability b s)
                   (DiscreteBelief_states b))"

definition log_preference :: "'o Preferences \<Rightarrow> 'o \<Rightarrow> real" where
  "log_preference prefs ob = (case map_of prefs ob of Some c \<Rightarrow> c | None \<Rightarrow> - 10)"

text \<open>
  The private cache of a learnable observation model is either empty or holds the
  matrix derived from the current pseudo-counts. The constructor, \<open>learn\<close> and the
  getter keep it so.
\<close>

definition cache_valid :: "('o, 's) DirichletObservation \<Rightarrow> bool" where
  "cache_valid m =
     (case matrix_cache m of None \<Rightarrow> True | Some mx \<Rightarrow> mx = DirichletObservation_normalize m)"

text \<open>
  The beliefs obtained by iterating \<open>predict\<close> along a policy from a belief, the
  cumulative EFE of the policy (the sum of the scores of those beliefs), and the
  beam entry that belongs to the policy.
\<close>

fun predicted_beliefs :: "('a, 'b) TransitionModel \<Rightarrow> 'b \<Rightarrow> 'a list \<Rightarrow> 'b list" where
  "predicted_beliefs tm b [] = []"
| "predicted_beliefs tm b (action # pol) =
     predict tm b action # predicted_beliefs tm (predict tm b action) pol"

definition cumulative_efe ::
  "('a, 'b) TransitionModel \<Rightarrow> ('b \<Rightarrow> real) \<Rightarrow> 'b \<Rightarrow> 'a list \<Rightarrow> real" where
  "cumulative_efe tm scorer b pol = sum_list (map scorer (predicted_beliefs tm b pol))"

definition policy_beam ::
  "('a, 'b) TransitionModel \<Rightarrow> ('b \<Rightarrow> real) \<Rightarrow> 'b \<Rightarrow> 'a list \<Rightarrow> ('a, 'b) beam" where
  "policy_beam tm scorer b pol =
     \<lparr>policy = pol,
      efe = cumulative_efe tm scorer b pol,
      belief = last (b # predicted_beliefs tm b pol)\<rparr>"

section \<open>Kalman update\<close>

lemma kalman_formula:
  "GaussianObservation_update om b y =
     \<lparr>mean = mean b + kalman_gain (scale om) (variance b) (noise om) *
                       (y - scale om * mean b - bias om),
      variance = (1 - kalman_gain (scale om) (variance b) (noise om) * scale om) * variance b\<rparr>"
  by (simp add: GaussianObservation_update_def kalman_gain_def Let_def power2_eq_square
      mult.commute diff_diff_eq)

lemma gain_unit_scale:
  assumes "0 < R" and "0 < (v::real)"
  shows "0 < kalman_gain 1 v R" and "kalman_gain 1 v R < 1"
  using assms by (simp_all add: kalman_gain_def)

lemma unit_scale_variance:
  assumes c: "scale om = 1" and R: "0 < noise om" and v: "0 < variance b"
  shows "variance (GaussianObservation_update om b y) < variance b"
proof -
  let ?K = "kalman_gain 1 (variance b) (noise om)"
  have "variance (GaussianObservation_update om b y) = (1 - ?K) * variance b"
    by (simp add: kalman_formula c)
  moreover have "(1 - ?K) * variance b < 1 * variance b"
    using gain_unit_scale[OF R v] v by (intro mult_strict_right_mono) simp_all
  ultimately show ?thesis by simp
qed

lemma unit_scale_mean:
  assumes c: "scale om = 1" and R: "0 < noise om" and v: "0 < variance b"
  shows "\<exists>K. 0 < K \<and> K < 1 \<and>
           mean (GaussianObservation_update om b y) = mean b + K * (y - bias om - mean b)"
proof -
  let ?K = "kalman_gain 1 (variance b) (noise om)"
  have "mean (GaussianObservation_update om b y) = mean b + ?K * (y - bias om - mean b)"
    by (simp add: kalman_formula c algebra_simps)
  then show ?thesis using gain_unit_scale[OF R v] by blast
qed

lemma convex_step_closer:
  fixes m y K :: real
  assumes "0 < K" "K < 1" "y \<noteq> m"
  shows "\<bar>y - (m + K * (y - m))\<bar> < \<bar>y - m\<bar>"
    and "m < y \<Longrightarrow> m < m + K * (y - m) \<and> m + K * (y - m) < y"
    and "y < m \<Longrightarrow> y < m + K * (y - m) \<and> m + K * (y - m) < m"
proof -
  have e: "y - (m + K * (y - m)) = (1 - K) * (y - m)" by (simp add: algebra_simps)
  have "(1 - K) * \<bar>y - m\<bar> < 1 * \<bar>y - m\<bar>"
    using assms by (intro mult_strict_right_mono) simp_all
  then show "\<bar>y - (m + K * (y - m))\<bar> < \<bar>y - m\<bar>"
    using assms by (simp add: e abs_mult)
  show "m < m + K * (y - m) \<and> m + K * (y - m) < y" if "m < y"
  proof -
    have "0 < K * (y - m)" using that assms by simp
    moreover have "K * (y - m) < 1 * (y - m)"
      using that assms by (intro mult_strict_right_mono) simp_all
    ultimately show ?thesis by simp
  qed
  show "y < m + K * (y - m) \<and> m + K * (y - m) < m" if "y < m"
  proof -
    have "0 < K * (m - y)" using that assms by simp
    moreover have "K * (m - y) < 1 * (m - y)"
      using that assms by (intro mult_strict_right_mono) simp_all
    ultimately show ?thesis by (simp add: algebra_simps)
  qed
qed

text \<open>
  C3 (amended). The update returns mean \<open>\<mu> + K (y - c \<mu> - b)\<close> and variance
  \<open>(1 - K c) \<sigma>\<^sup>2\<close> with \<open>K = \<sigma>\<^sup>2 c / (c\<^sup>2 \<sigma>\<^sup>2 + R)\<close>. With scale \<open>1\<close>,
  noise \<open>R > 0\<close> and \<open>\<sigma>\<^sup>2 > 0\<close> the posterior variance is strictly smaller than
  the prior variance; if moreover the bias is \<open>0\<close> and \<open>y \<noteq> \<mu>\<close>, the posterior
  mean lies strictly between \<open>\<mu>\<close> and \<open>y\<close>, strictly closer to \<open>y\<close>.
\<close>

theorem kalman_update_unit_scale:
  "GaussianObservation_update om b y =
     \<lparr>mean = mean b + kalman_gain (scale om) (variance b) (noise om) *
                       (y - scale om * mean b - bias om),
      variance = (1 - kalman_gain (scale om) (variance b) (noise om) * scale om) * variance b\<rparr>
   \<and> (scale om = 1 \<and> 0 < noise om \<and> 0 < variance b \<longrightarrow>
        variance (GaussianObservation_update om b y) < variance b)
   \<and> (scale om = 1 \<and> bias om = 0 \<and> 0 < noise om \<and> 0 < variance b \<and> y \<noteq> mean b \<longrightarrow>
        \<bar>y - mean (GaussianObservation_update om b y)\<bar> < \<bar>y - mean b\<bar> \<and>
        (mean b < y \<longrightarrow> mean b < mean (GaussianObservation_update om b y) \<and>
                         mean (GaussianObservation_update om b y) < y) \<and>
        (y < mean b \<longrightarrow> y < mean (GaussianObservation_update om b y) \<and>
                         mean (GaussianObservation_update om b y) < mean b))"
proof (intro conjI)
  show "GaussianObservation_update om b y =
     \<lparr>mean = mean b + kalman_gain (scale om) (variance b) (noise om) *
                       (y - scale om * mean b - bias om),
      variance = (1 - kalman_gain (scale om) (variance b) (noise om) * scale om) * variance b\<rparr>"
    by (rule kalman_formula)
  show "scale om = 1 \<and> 0 < noise om \<and> 0 < variance b \<longrightarrow>
        variance (GaussianObservation_update om b y) < variance b"
    by (simp add: unit_scale_variance)
  show "scale om = 1 \<and> bias om = 0 \<and> 0 < noise om \<and> 0 < variance b \<and> y \<noteq> mean b \<longrightarrow>
        \<bar>y - mean (GaussianObservation_update om b y)\<bar> < \<bar>y - mean b\<bar> \<and>
        (mean b < y \<longrightarrow> mean b < mean (GaussianObservation_update om b y) \<and>
                         mean (GaussianObservation_update om b y) < y) \<and>
        (y < mean b \<longrightarrow> y < mean (GaussianObservation_update om b y) \<and>
                         mean (GaussianObservation_update om b y) < mean b)"
  proof
    assume h: "scale om = 1 \<and> bias om = 0 \<and> 0 < noise om \<and> 0 < variance b \<and> y \<noteq> mean b"
    then obtain K where K: "0 < K" "K < 1"
      and m: "mean (GaussianObservation_update om b y) = mean b + K * (y - mean b)"
      using unit_scale_mean[of om b y] by auto
    from h have y: "y \<noteq> mean b" by simp
    show "\<bar>y - mean (GaussianObservation_update om b y)\<bar> < \<bar>y - mean b\<bar> \<and>
        (mean b < y \<longrightarrow> mean b < mean (GaussianObservation_update om b y) \<and>
                         mean (GaussianObservation_update om b y) < y) \<and>
        (y < mean b \<longrightarrow> y < mean (GaussianObservation_update om b y) \<and>
                         mean (GaussianObservation_update om b y) < mean b)"
      unfolding m using convex_step_closer[OF K y] by blast
  qed
qed

theorem kalman_update_unit_scale_witness:
  "mean (GaussianObservation_update \<lparr>scale = 1, bias = 0, noise = 1 / 10\<rparr>
           \<lparr>mean = 1, variance = 1 / 10\<rparr> (16 / 5)) = 21 / 10
   \<and> variance (GaussianObservation_update \<lparr>scale = 1, bias = 0, noise = 1 / 10\<rparr>
           \<lparr>mean = 1, variance = 1 / 10\<rparr> (16 / 5)) < 1 / 10
   \<and> \<bar>16 / 5 - mean (GaussianObservation_update \<lparr>scale = 1, bias = 0, noise = 1 / 10\<rparr>
           \<lparr>mean = 1, variance = 1 / 10\<rparr> (16 / 5))\<bar> < \<bar>16 / 5 - (1::real)\<bar>"
  using kalman_update_unit_scale
    [of "\<lparr>scale = 1, bias = 0, noise = 1 / 10\<rparr>" "\<lparr>mean = 1, variance = 1 / 10\<rparr>" "16 / 5"]
  by (simp add: kalman_gain_def)

text \<open>
  C3 as stated fails when the bias is not \<open>0\<close>: with scale \<open>1\<close>, bias \<open>1\<close>, noise
  \<open>1\<close>, prior \<open>N(0, 1)\<close> and \<open>y = 1 \<noteq> \<mu>\<close> the posterior mean is the prior mean.
\<close>

theorem kalman_bias_counterexample:
  "\<not> \<bar>1 - mean (GaussianObservation_update \<lparr>scale = 1, bias = 1, noise = 1\<rparr>
               \<lparr>mean = 0, variance = 1\<rparr> 1)\<bar> < \<bar>1 - (0::real)\<bar>"
  by (simp add: GaussianObservation_update_def Let_def)

section \<open>Objects and sums\<close>

lemma foldl_plus_sum_list: "foldl (+) a xs = a + sum_list (xs :: real list)"
  by (induction xs arbitrary: a) simp_all

lemma fold_plus_sum_list: "fold (\<lambda>x acc. acc + f x) xs a = (a::real) + sum_list (map f xs)"
  by (induction xs arbitrary: a) simp_all

lemma sum_list_map_divide: "sum_list (map (\<lambda>x. f x / c) xs) = sum_list (map f xs) / (c::real)"
  by (induction xs) (simp_all add: add_divide_distrib)

lemma map_of_tabulate:
  "map_of (map (\<lambda>k. (k, f k)) ks) k = (if k \<in> set ks then Some (f k) else None)"
  by (induction ks) simp_all

lemma num_at_tabulate: "k \<in> set ks \<Longrightarrow> num_at (map (\<lambda>k. (k, f k)) ks) k = f k"
  by (simp add: num_at_def map_of_tabulate)

lemma get_or_tabulate:
  "get_or (map (\<lambda>k. (k, f k)) ks) k d = (if k \<in> set ks then f k else d)"
  by (simp add: get_or_def map_of_tabulate)

lemma keys_tabulate: "keys (map (\<lambda>k. (k, f k)) ks) = ks"
  by (simp add: keys_def comp_def)

lemma num_at_key: "k \<in> set (keys ob) \<Longrightarrow> num_at ob k = get_or ob k d"
proof -
  assume "k \<in> set (keys ob)"
  then obtain v where "map_of ob k = Some v"
    by (auto simp: keys_def weak_map_of_SomeI dest!: weak_map_of_SomeI)
  then show ?thesis by (simp add: num_at_def get_or_def)
qed

section \<open>Bayesian update of a discrete belief\<close>

lemma update_unfold:
  "DiscreteBelief_update b likelihood =
     \<lparr>distribution =
        (if weighted_sum b likelihood > 0
         then map (\<lambda>s. (s, get_or likelihood s 0 * DiscreteBelief_probability b s /
                           weighted_sum b likelihood)) (DiscreteBelief_states b)
         else map (\<lambda>s. (s, get_or likelihood s 0 * DiscreteBelief_probability b s))
                  (DiscreteBelief_states b))\<rparr>"
proof -
  have e: "\<And>s. s \<in> set (DiscreteBelief_states b) \<Longrightarrow>
      num_at (distribution b) s * get_or likelihood s 0
      = get_or likelihood s 0 * DiscreteBelief_probability b s"
    by (simp add: DiscreteBelief_probability_def DiscreteBelief_states_def num_at_key[where d = 0])
  have n: "map (\<lambda>s. (s, num_at (distribution b) s * get_or likelihood s 0)) (DiscreteBelief_states b)
      = map (\<lambda>s. (s, get_or likelihood s 0 * DiscreteBelief_probability b s)) (DiscreteBelief_states b)"
    by (rule map_cong[OF refl]) (simp add: e)
  have w: "foldl (+) 0 (map (\<lambda>s. num_at (map (\<lambda>s. (s, get_or likelihood s 0 * DiscreteBelief_probability b s))
                       (DiscreteBelief_states b)) s) (DiscreteBelief_states b))
      = weighted_sum b likelihood"
    unfolding foldl_plus_sum_list weighted_sum_def
    by (simp add: num_at_tabulate cong: map_cong)
  have d: "map (\<lambda>s. (s, num_at (map (\<lambda>s. (s, get_or likelihood s 0 * DiscreteBelief_probability b s))
                       (DiscreteBelief_states b)) s / weighted_sum b likelihood)) (DiscreteBelief_states b)
      = map (\<lambda>s. (s, get_or likelihood s 0 * DiscreteBelief_probability b s /
                           weighted_sum b likelihood)) (DiscreteBelief_states b)"
    by (rule map_cong[OF refl]) (simp add: num_at_tabulate)
  show ?thesis
    unfolding DiscreteBelief_update_def Let_def n w d by simp
qed

lemma update_states: "DiscreteBelief_states (DiscreteBelief_update b likelihood) = DiscreteBelief_states b"
  by (simp add: update_unfold DiscreteBelief_states_def[of "\<lparr>distribution = _\<rparr>"] keys_tabulate)

lemma update_probability:
  "DiscreteBelief_probability (DiscreteBelief_update b likelihood) s =
     (if s \<in> set (DiscreteBelief_states b)
      then (if weighted_sum b likelihood > 0
            then get_or likelihood s 0 * DiscreteBelief_probability b s / weighted_sum b likelihood
            else get_or likelihood s 0 * DiscreteBelief_probability b s)
      else 0)"
  by (simp add: update_unfold DiscreteBelief_probability_def[of "\<lparr>distribution = _\<rparr>"] get_or_tabulate)

lemma update_total:
  assumes "weighted_sum b likelihood > 0"
  shows "sum_list (map (DiscreteBelief_probability (DiscreteBelief_update b likelihood))
                       (DiscreteBelief_states (DiscreteBelief_update b likelihood))) = 1"
proof -
  let ?W = "weighted_sum b likelihood"
  have m: "map (DiscreteBelief_probability (DiscreteBelief_update b likelihood)) (DiscreteBelief_states b)
      = map (\<lambda>s. get_or likelihood s 0 * DiscreteBelief_probability b s / ?W)
            (DiscreteBelief_states b)"
    using assms by (intro map_cong[OF refl]) (simp add: update_probability)
  have "sum_list (map (DiscreteBelief_probability (DiscreteBelief_update b likelihood))
                       (DiscreteBelief_states b))
      = sum_list (map (\<lambda>s. get_or likelihood s 0 * DiscreteBelief_probability b s)
            (DiscreteBelief_states b)) / ?W"
    unfolding m by (rule sum_list_map_divide)
  also have "\<dots> = ?W / ?W" by (simp only: weighted_sum_def)
  also have "\<dots> = 1" using assms by simp
  finally show ?thesis by (simp only: update_states)
qed

lemma zero_sum_all_zero:
  assumes "sum_list (map f xs) = (0::real)" and "\<And>x. x \<in> set xs \<Longrightarrow> 0 \<le> f x" and "x \<in> set xs"
  shows "f x = 0"
proof -
  have "\<forall>y\<in>set (map f xs). 0 \<le> y" using assms(2) by auto
  then have "\<forall>y\<in>set (map f xs). y = 0"
    using assms(1) sum_list_nonneg_eq_0_iff[of "map f xs"] by blast
  then show ?thesis using assms(3) by simp
qed


text \<open>
  C2. The posterior has the states of the prior. When the weighted sum is positive,
  every state gets \<open>likelihood(s) \<sqdot> prior(s)\<close> divided by that sum and the
  probabilities sum to \<open>1\<close>. Otherwise nothing is divided: every state keeps the
  bare product, and for non-negative priors and likelihoods with weighted sum \<open>0\<close>
  that is \<open>0\<close> for every state. The function is total: no branch raises.
\<close>

theorem update_posterior:
  "DiscreteBelief_states (DiscreteBelief_update b likelihood) = DiscreteBelief_states b
   \<and> (weighted_sum b likelihood > 0 \<longrightarrow>
        (\<forall>s \<in> set (DiscreteBelief_states b).
           DiscreteBelief_probability (DiscreteBelief_update b likelihood) s =
           get_or likelihood s 0 * DiscreteBelief_probability b s / weighted_sum b likelihood) \<and>
        sum_list (map (DiscreteBelief_probability (DiscreteBelief_update b likelihood))
                      (DiscreteBelief_states (DiscreteBelief_update b likelihood))) = 1)
   \<and> (\<not> weighted_sum b likelihood > 0 \<longrightarrow>
        (\<forall>s \<in> set (DiscreteBelief_states b).
           DiscreteBelief_probability (DiscreteBelief_update b likelihood) s =
           get_or likelihood s 0 * DiscreteBelief_probability b s))
   \<and> (weighted_sum b likelihood = 0 \<and>
       (\<forall>s \<in> set (DiscreteBelief_states b).
          0 \<le> DiscreteBelief_probability b s \<and> 0 \<le> get_or likelihood s 0) \<longrightarrow>
        (\<forall>s. DiscreteBelief_probability (DiscreteBelief_update b likelihood) s = 0))"
proof (intro conjI)
  show "DiscreteBelief_states (DiscreteBelief_update b likelihood) = DiscreteBelief_states b"
    by (rule update_states)
  show "weighted_sum b likelihood > 0 \<longrightarrow>
        (\<forall>s \<in> set (DiscreteBelief_states b).
           DiscreteBelief_probability (DiscreteBelief_update b likelihood) s =
           get_or likelihood s 0 * DiscreteBelief_probability b s / weighted_sum b likelihood) \<and>
        sum_list (map (DiscreteBelief_probability (DiscreteBelief_update b likelihood))
                      (DiscreteBelief_states (DiscreteBelief_update b likelihood))) = 1"
    using update_total[of b likelihood] by (simp add: update_probability)
  show "\<not> weighted_sum b likelihood > 0 \<longrightarrow>
        (\<forall>s \<in> set (DiscreteBelief_states b).
           DiscreteBelief_probability (DiscreteBelief_update b likelihood) s =
           get_or likelihood s 0 * DiscreteBelief_probability b s)"
    by (simp add: update_probability)
  show "weighted_sum b likelihood = 0 \<and>
       (\<forall>s \<in> set (DiscreteBelief_states b).
          0 \<le> DiscreteBelief_probability b s \<and> 0 \<le> get_or likelihood s 0) \<longrightarrow>
        (\<forall>s. DiscreteBelief_probability (DiscreteBelief_update b likelihood) s = 0)"
  proof (intro impI allI)
    fix s
    assume h: "weighted_sum b likelihood = 0 \<and>
       (\<forall>s \<in> set (DiscreteBelief_states b).
          0 \<le> DiscreteBelief_probability b s \<and> 0 \<le> get_or likelihood s 0)"
    show "DiscreteBelief_probability (DiscreteBelief_update b likelihood) s = 0"
    proof (cases "s \<in> set (DiscreteBelief_states b)")
      case True
      have "get_or likelihood s 0 * DiscreteBelief_probability b s = 0"
      proof (rule zero_sum_all_zero[where xs = "DiscreteBelief_states b"])
        show "sum_list (map (\<lambda>s. get_or likelihood s 0 * DiscreteBelief_probability b s)
                (DiscreteBelief_states b)) = 0"
          using h by (simp add: weighted_sum_def)
        show "0 \<le> get_or likelihood x 0 * DiscreteBelief_probability b x"
          if "x \<in> set (DiscreteBelief_states b)" for x
          using h that by simp
        show "s \<in> set (DiscreteBelief_states b)" by (rule True)
      qed
      then show ?thesis using h True by (simp add: update_probability)
    next
      case False
      then show ?thesis by (simp add: update_probability)
    qed
  qed
qed

text \<open>
  The prior \<open>{a: 1/2, b: 1/2}\<close> with likelihood \<open>{a: 9/10, b: 1/10}\<close> has weighted sum
  \<open>1/2\<close> and posterior \<open>{a: 9/10, b: 1/10}\<close>; with the all-zero likelihood the
  posterior is all zero.
\<close>

theorem update_posterior_witness:
  "weighted_sum \<lparr>distribution = [(''a'', 1 / 2), (''b'', 1 / 2)]\<rparr> [(''a'', 9 / 10), (''b'', 1 / 10)] > 0
   \<and> DiscreteBelief_probability
        (DiscreteBelief_update \<lparr>distribution = [(''a'', 1 / 2), (''b'', 1 / 2)]\<rparr>
           [(''a'', 9 / 10), (''b'', 1 / 10)]) ''a'' = 9 / 10
   \<and> sum_list (map (DiscreteBelief_probability
        (DiscreteBelief_update \<lparr>distribution = [(''a'', 1 / 2), (''b'', 1 / 2)]\<rparr>
           [(''a'', 9 / 10), (''b'', 1 / 10)]))
        (DiscreteBelief_states
          (DiscreteBelief_update \<lparr>distribution = [(''a'', 1 / 2), (''b'', 1 / 2)]\<rparr>
             [(''a'', 9 / 10), (''b'', 1 / 10)]))) = 1
   \<and> weighted_sum \<lparr>distribution = [(''a'', 1 / 2), (''b'', 1 / 2)]\<rparr> [(''a'', 0), (''b'', 0)] = 0
   \<and> DiscreteBelief_probability
        (DiscreteBelief_update \<lparr>distribution = [(''a'', 1 / 2), (''b'', 1 / 2)]\<rparr>
           [(''a'', 0), (''b'', 0)]) ''b'' = 0"
proof -
  let ?b = "\<lparr>distribution = [(''a'', 1 / 2), (''b'', 1 / 2 :: real)]\<rparr>"
  let ?l = "[(''a'', 9 / 10), (''b'', 1 / 10 :: real)]"
  let ?z = "[(''a'', 0), (''b'', 0 :: real)]"
  have w: "weighted_sum ?b ?l = 1 / 2"
    by (simp add: weighted_sum_def DiscreteBelief_states_def DiscreteBelief_probability_def
        keys_def get_or_def)
  then have w0: "weighted_sum ?b ?l > 0" by simp
  have z: "weighted_sum ?b ?z = 0"
    by (simp add: weighted_sum_def DiscreteBelief_states_def DiscreteBelief_probability_def
        keys_def get_or_def)
  have a: "''a'' \<in> set (DiscreteBelief_states ?b)"
    by (simp add: DiscreteBelief_states_def keys_def)
  have nn: "\<forall>s \<in> set (DiscreteBelief_states ?b).
      0 \<le> DiscreteBelief_probability ?b s \<and> 0 \<le> get_or ?z s 0"
    by (simp add: DiscreteBelief_states_def keys_def DiscreteBelief_probability_def get_or_def)
  have pa: "get_or ?l ''a'' 0 * DiscreteBelief_probability ?b ''a'' / weighted_sum ?b ?l = 9 / 10"
    unfolding w by (simp add: DiscreteBelief_probability_def get_or_def)
  from update_posterior[of ?b ?l] w0 a
  have "DiscreteBelief_probability (DiscreteBelief_update ?b ?l) ''a'' =
      get_or ?l ''a'' 0 * DiscreteBelief_probability ?b ''a'' / weighted_sum ?b ?l"
    by blast
  then have 1: "DiscreteBelief_probability (DiscreteBelief_update ?b ?l) ''a'' = 9 / 10"
    by (simp only: pa)
  from update_posterior[of ?b ?l] w0
  have 2: "sum_list (map (DiscreteBelief_probability (DiscreteBelief_update ?b ?l))
        (DiscreteBelief_states (DiscreteBelief_update ?b ?l))) = 1"
    by blast
  from update_posterior[of ?b ?z] z nn
  have 3: "DiscreteBelief_probability (DiscreteBelief_update ?b ?z) ''b'' = 0"
    by blast
  from w0 1 2 z 3 show ?thesis by blast
qed

section \<open>Risk\<close>

lemma fold_guarded_minus:
  "fold (\<lambda>x acc. if g x > 0 then acc - g x * h x else acc) xs a
   = (a::real) - sum_list (map (\<lambda>x. if g x > (0::real) then g x * h x else 0) xs)"
  by (induction xs arbitrary: a) simp_all

lemma expectedObsProb_eq: "expectedObsProb b om ob = predicted_observation b om ob"
  by (simp add: expectedObsProb_def predicted_observation_def fold_plus_sum_list)

lemma get_or_log_preference: "get_or prefs ob (- 10) = log_preference prefs ob"
  by (simp add: get_or_def log_preference_def)

lemma computeRisk_guarded:
  "computeRisk b om prefs =
     - sum_list (map (\<lambda>ob. if predicted_observation b om ob > 0
                            then predicted_observation b om ob * log_preference prefs ob else 0)
                     (observations om))"
  by (simp add: computeRisk_def Let_def expectedObsProb_eq get_or_log_preference
      fold_guarded_minus)

lemma DiscreteAgent_computeRisk_eq:
  "DiscreteAgent_computeRisk ag b = computeRisk b (da_observationModel ag) (da_preferences ag)"
  by (simp add: DiscreteAgent_computeRisk_def computeRisk_def expectedObsProb_def Let_def)

lemma predicted_observation_nonneg:
  assumes "\<forall>s \<in> set (DiscreteBelief_states b). 0 \<le> DiscreteBelief_probability b s"
    and "\<forall>s \<in> set (DiscreteBelief_states b). 0 \<le> om_probability om ob s"
  shows "0 \<le> predicted_observation b om ob"
  unfolding predicted_observation_def using assms by (intro sum_list_nonneg) auto

lemma sum_list_skip_zero:
  "sum_list (map f (filter (\<lambda>x. g x \<noteq> (0::real)) xs)) = sum_list (map f xs)"
  if "\<And>x. g x = 0 \<Longrightarrow> f x = (0::real)"
  using that by (induction xs) simp_all

text \<open>
  C5. For a predicted belief and an observation model with non-negative
  probabilities, the risk is \<open>- \<Sum>\<^sub>o Q(o) \<sqdot> pref(o)\<close> over the observations with
  \<open>Q(o) \<noteq> 0\<close> (equally, over all observations), where \<open>Q(o) = \<Sum>\<^sub>s P(o|s) \<sqdot> Q(s)\<close> and
  \<open>pref(o)\<close> is the configured log-preference or \<open>-10\<close> without an entry. The method
  of the earlier agent computes the same number.
\<close>

theorem computeRisk_formula:
  assumes "\<forall>s \<in> set (DiscreteBelief_states b). 0 \<le> DiscreteBelief_probability b s"
    and "\<forall>ob \<in> set (observations om). \<forall>s \<in> set (DiscreteBelief_states b). 0 \<le> om_probability om ob s"
  shows "computeRisk b om prefs =
           - sum_list (map (\<lambda>ob. predicted_observation b om ob * log_preference prefs ob)
                           (filter (\<lambda>ob. predicted_observation b om ob \<noteq> 0) (observations om)))
       \<and> computeRisk b om prefs =
           - sum_list (map (\<lambda>ob. predicted_observation b om ob * log_preference prefs ob)
                           (observations om))
       \<and> (da_observationModel ag = om \<and> da_preferences ag = prefs \<longrightarrow>
           DiscreteAgent_computeRisk ag b = computeRisk b om prefs)
       \<and> (map_of prefs ob = None \<longrightarrow> log_preference prefs ob = - 10)
       \<and> (map_of prefs ob = Some c \<longrightarrow> log_preference prefs ob = c)"
proof -
  have g: "(if predicted_observation b om ob > 0
            then predicted_observation b om ob * log_preference prefs ob else 0)
         = predicted_observation b om ob * log_preference prefs ob"
    if "ob \<in> set (observations om)" for ob
    using predicted_observation_nonneg[of b om ob] assms that by fastforce
  have all: "computeRisk b om prefs =
           - sum_list (map (\<lambda>ob. predicted_observation b om ob * log_preference prefs ob)
                           (observations om))"
    unfolding computeRisk_guarded using g by (simp cong: map_cong)
  have skip: "computeRisk b om prefs =
           - sum_list (map (\<lambda>ob. predicted_observation b om ob * log_preference prefs ob)
                           (filter (\<lambda>ob. predicted_observation b om ob \<noteq> 0) (observations om)))"
    unfolding all by (subst sum_list_skip_zero) simp_all
  have old: "da_observationModel ag = om \<and> da_preferences ag = prefs \<longrightarrow>
           DiscreteAgent_computeRisk ag b = computeRisk b om prefs"
    by (auto simp: DiscreteAgent_computeRisk_eq)
  have dflt: "map_of prefs ob = None \<longrightarrow> log_preference prefs ob = - 10"
    "map_of prefs ob = Some c \<longrightarrow> log_preference prefs ob = c"
    by (simp_all add: log_preference_def)
  from skip all old dflt show ?thesis by blast
qed

text \<open>
  A belief \<open>{x: 1/2, y: 1/2}\<close>, a sensor that reports \<open>good\<close> in \<open>x\<close> and \<open>bad\<close> in
  \<open>y\<close>, and a preference for \<open>good\<close> only: \<open>bad\<close> takes the default and the risk is
  \<open>5\<close>.
\<close>

theorem computeRisk_formula_witness:
  "computeRisk \<lparr>distribution = [(''x'', 1 / 2), (''y'', 1 / 2)]\<rparr>
     (DiscreteObservation_model
        \<lparr>matrix = [(''good'', [(''x'', 1), (''y'', 0)]), (''bad'', [(''x'', 0), (''y'', 1)])]\<rparr>)
     [(''good'', 0)] = 5
   \<and> log_preference [(''good'', 0)] ''bad'' = - 10"
proof -
  let ?b = "\<lparr>distribution = [(''x'', 1 / 2), (''y'', 1 / 2 :: real)]\<rparr>"
  let ?om = "DiscreteObservation_model
        \<lparr>matrix = [(''good'', [(''x'', 1), (''y'', 0 :: real)]), (''bad'', [(''x'', 0), (''y'', 1)])]\<rparr>"
  let ?p = "[(''good'', 0 :: real)]"
  have st: "DiscreteBelief_states ?b = [''x'', ''y'']"
    by (simp add: DiscreteBelief_states_def keys_def)
  have ob: "observations ?om = [''good'', ''bad'']"
    by (simp add: DiscreteObservation_model_def keys_def)
  have h1: "\<forall>s \<in> set (DiscreteBelief_states ?b). 0 \<le> DiscreteBelief_probability ?b s"
    by (simp add: st DiscreteBelief_probability_def get_or_def)
  have h2: "\<forall>ob \<in> set (observations ?om). \<forall>s \<in> set (DiscreteBelief_states ?b).
      0 \<le> om_probability ?om ob s"
    unfolding ob st
    by (simp add: DiscreteObservation_model_def matrix_probability_def slot_of_def)
  have q: "predicted_observation ?b ?om ''good'' = 1 / 2" "predicted_observation ?b ?om ''bad'' = 1 / 2"
    by (simp_all add: predicted_observation_def st DiscreteBelief_probability_def get_or_def
        DiscreteObservation_model_def matrix_probability_def slot_of_def)
  have l: "log_preference ?p ''good'' = 0" "log_preference ?p ''bad'' = - 10"
    by (simp_all add: log_preference_def)
  from computeRisk_formula[OF h1 h2, of ?p]
  have "computeRisk ?b ?om ?p =
      - sum_list (map (\<lambda>ob. predicted_observation ?b ?om ob * log_preference ?p ob)
                      (observations ?om))"
    by blast
  then have "computeRisk ?b ?om ?p = 5"
    unfolding ob by (simp add: q l)
  with l show ?thesis by blast
qed

section \<open>Dirichlet learning of the observation model\<close>

text \<open>The effect of the loop on the row of the observed key.\<close>

lemma num_at_update:
  "num_at (AList.update k v row) k' = (if k' = k then v else num_at row k')"
  by (simp add: num_at_def update_conv')

lemma conc_at_update:
  "conc_at (AList.update ob row conc) ob' s = (if ob' = ob then num_at row s else conc_at conc ob' s)"
  by (simp add: conc_at_def get_or_def update_conv')

lemma fold_row_increment:
  assumes "distinct ss"
  shows "num_at (fold (\<lambda>s r. AList.update s (num_at r s + get_or p s 0) r) ss row) k
       = (if k \<in> set ss then num_at row k + get_or p k 0 else num_at row k)"
  using assms
proof (induction ss arbitrary: row)
  case Nil
  then show ?case by simp
next
  case (Cons s ss)
  then show ?case by (auto simp: num_at_update)
qed

lemma fold_learn_step_error: "fold (learn_step ob p) ss (Inl e) = Inl e"
  by (induction ss) (simp_all add: learn_step_def)

lemma fold_learn_step_known:
  assumes "map_of conc ob = Some row"
  shows "fold (learn_step ob p) ss (Inr conc)
       = Inr (AList.update ob (fold (\<lambda>s r. AList.update s (num_at r s + get_or p s 0) r) ss row) conc)"
  using assms
proof (induction ss arbitrary: conc row)
  case Nil
  then show ?case by (simp add: update_triv)
next
  case (Cons s ss)
  let ?row = "AList.update s (num_at row s + get_or p s 0) row"
  have step: "learn_step ob p s (Inr conc) = Inr (AList.update ob ?row conc)"
    using Cons.prems by (simp add: learn_step_def slot_of_def)
  have "map_of (AList.update ob ?row conc) ob = Some ?row"
    by (simp add: update_conv')
  from Cons.IH[OF this] show ?case
    by (simp add: step)
qed

lemma known_observation_row:
  assumes "ob \<in> set (DirichletObservation_observations m)"
  shows "\<exists>row. map_of (concentrations m) ob = Some row"
  using assms
  by (metis DirichletObservation_observations_def keys_def map_of_eq_None_iff not_Some_eq
      set_map)

lemma learn_known:
  assumes "map_of (concentrations m) ob = Some row"
  shows "DirichletObservation_learn m ob p =
     Inr \<lparr>concentrations =
            AList.update ob (fold (\<lambda>s r. AList.update s (num_at r s + get_or p s 0) r)
                               (DirichletObservation_states m) row) (concentrations m),
          matrix_cache = None\<rparr>"
  by (simp add: DirichletObservation_learn_def fold_learn_step_known[OF assms])

lemma learn_entries:
  assumes ob: "ob \<in> set (DirichletObservation_observations m)"
    and d: "distinct (DirichletObservation_states m)"
  shows "\<exists>m'. DirichletObservation_learn m ob p = Inr m' \<and> matrix_cache m' = None \<and>
           (\<forall>ob' s. conc_at (concentrations m') ob' s =
              (if ob' = ob \<and> s \<in> set (DirichletObservation_states m)
               then conc_at (concentrations m) ob' s + get_or p s 0
               else conc_at (concentrations m) ob' s))"
proof -
  from known_observation_row[OF ob] obtain row where row: "map_of (concentrations m) ob = Some row"
    by blast
  have c: "conc_at (concentrations m) ob s = num_at row s" for s
    by (simp add: conc_at_def get_or_def row)
  show ?thesis
    unfolding learn_known[OF row]
    by (simp add: conc_at_update fold_row_increment[OF d] c)
qed


text \<open>
  C6 (amended). For a configured observation \<open>o*\<close> and a posterior with
  non-negative values, \<open>learn\<close> returns normally and adds \<open>posterior(s)\<close> to
  \<open>a[o*][s]\<close> for every state \<open>s\<close>: the entry strictly increases where
  \<open>posterior(s) > 0\<close> and stays as it was where \<open>posterior(s) = 0\<close>. Every entry
  of another observation is unchanged, no entry decreases, and the cached matrix is
  dropped. The states are the distinct keys of the first row.
\<close>

theorem learn_conjugate_increment:
  assumes "ob \<in> set (DirichletObservation_observations m)"
    and "distinct (DirichletObservation_states m)"
    and "\<forall>s \<in> set (DirichletObservation_states m). 0 \<le> get_or p s 0"
  shows "\<exists>m'. DirichletObservation_learn m ob p = Inr m' \<and>
           (\<forall>s \<in> set (DirichletObservation_states m).
              conc_at (concentrations m') ob s = conc_at (concentrations m) ob s + get_or p s 0) \<and>
           (\<forall>s \<in> set (DirichletObservation_states m).
              0 < get_or p s 0 \<longrightarrow>
              conc_at (concentrations m) ob s < conc_at (concentrations m') ob s) \<and>
           (\<forall>s \<in> set (DirichletObservation_states m).
              get_or p s 0 = 0 \<longrightarrow>
              conc_at (concentrations m') ob s = conc_at (concentrations m) ob s) \<and>
           (\<forall>ob' s. ob' \<noteq> ob \<longrightarrow>
              conc_at (concentrations m') ob' s = conc_at (concentrations m) ob' s) \<and>
           (\<forall>ob' s. conc_at (concentrations m) ob' s \<le> conc_at (concentrations m') ob' s) \<and>
           matrix_cache m' = None"
proof -
  from learn_entries[OF assms(1,2), of p] obtain m' where
    r: "DirichletObservation_learn m ob p = Inr m'" and c: "matrix_cache m' = None" and
    e: "\<And>ob' s. conc_at (concentrations m') ob' s =
              (if ob' = ob \<and> s \<in> set (DirichletObservation_states m)
               then conc_at (concentrations m) ob' s + get_or p s 0
               else conc_at (concentrations m) ob' s)"
    by blast
  have "conc_at (concentrations m) ob' s \<le> conc_at (concentrations m') ob' s" for ob' s
    using assms(3) by (simp add: e)
  then show ?thesis using r c by (auto simp: e)
qed

text \<open>
  The test of the repository: from \<open>5\<close> everywhere, learning \<open>see_safe\<close> with
  posterior \<open>{safe: 0.9, danger: 0.1}\<close> gives \<open>5.9\<close> and \<open>5.1\<close> and leaves the row
  of \<open>see_danger\<close> alone.
\<close>

theorem learn_conjugate_increment_witness:
  "\<exists>m'. DirichletObservation_learn
           (DirichletObservation_new
              [(''see_safe'', [(''safe'', 5), (''danger'', 5)]),
               (''see_danger'', [(''safe'', 5), (''danger'', 5)])])
           ''see_safe'' [(''safe'', 9 / 10), (''danger'', 1 / 10)] = Inr m' \<and>
         conc_at (concentrations m') ''see_safe'' ''safe'' = 59 / 10 \<and>
         conc_at (concentrations m') ''see_safe'' ''danger'' = 51 / 10 \<and>
         conc_at (concentrations m') ''see_danger'' ''safe'' = 5"
proof -
  let ?c = "[(''see_safe'', [(''safe'', 5), (''danger'', 5 :: real)]),
             (''see_danger'', [(''safe'', 5), (''danger'', 5)])]"
  let ?m = "DirichletObservation_new ?c"
  let ?p = "[(''safe'', 9 / 10), (''danger'', 1 / 10 :: real)]"
  have st: "DirichletObservation_states ?m = [''safe'', ''danger'']"
    by (simp add: DirichletObservation_states_def DirichletObservation_new_def keys_def)
  have h1: "''see_safe'' \<in> set (DirichletObservation_observations ?m)"
    by (simp add: DirichletObservation_observations_def DirichletObservation_new_def keys_def)
  have h2: "distinct (DirichletObservation_states ?m)"
    by (simp add: st)
  have h3: "\<forall>s \<in> set (DirichletObservation_states ?m). 0 \<le> get_or ?p s 0"
    by (simp add: st get_or_def)
  have old: "conc_at (concentrations ?m) ''see_safe'' ''safe'' = 5"
    "conc_at (concentrations ?m) ''see_safe'' ''danger'' = 5"
    "conc_at (concentrations ?m) ''see_danger'' ''safe'' = 5"
    by (simp_all add: conc_at_def DirichletObservation_new_def get_or_def num_at_def)
  have p: "get_or ?p ''safe'' 0 = 9 / 10" "get_or ?p ''danger'' 0 = 1 / 10"
    by (simp_all add: get_or_def)
  from learn_conjugate_increment[OF h1 h2 h3] obtain m' where
    r: "DirichletObservation_learn ?m ''see_safe'' ?p = Inr m'" and
    inc: "\<forall>s \<in> set (DirichletObservation_states ?m).
              conc_at (concentrations m') ''see_safe'' s =
              conc_at (concentrations ?m) ''see_safe'' s + get_or ?p s 0" and
    oth: "\<forall>ob' s. ob' \<noteq> ''see_safe'' \<longrightarrow>
              conc_at (concentrations m') ob' s = conc_at (concentrations ?m) ob' s"
    by blast
  have "conc_at (concentrations m') ''see_safe'' ''safe'' = 59 / 10"
    "conc_at (concentrations m') ''see_safe'' ''danger'' = 51 / 10"
    using inc by (simp_all add: st old p)
  moreover have "conc_at (concentrations m') ''see_danger'' ''safe'' = 5"
    using oth by (simp add: old)
  ultimately show ?thesis using r by blast
qed

text \<open>
  C6 as stated fails on the entries of the observed row that receive no posterior
  mass. Another test of the repository learns \<open>see_safe\<close> with posterior
  \<open>{safe: 1, danger: 0}\<close>: the entry for \<open>danger\<close> is not increased.
\<close>

theorem learn_zero_mass_counterexample:
  "DirichletObservation_learn
     (DirichletObservation_new
        [(''see_safe'', [(''safe'', 1), (''danger'', 1)]),
         (''see_danger'', [(''safe'', 1), (''danger'', 1)])])
     ''see_safe'' [(''safe'', 1), (''danger'', 0)]
   = Inr \<lparr>concentrations =
            [(''see_safe'', [(''safe'', 2), (''danger'', 1)]),
             (''see_danger'', [(''safe'', 1), (''danger'', 1)])],
          matrix_cache = None\<rparr>
   \<and> \<not> conc_at [(''see_safe'', [(''safe'', 1), (''danger'', 1)]),
                (''see_danger'', [(''safe'', 1), (''danger'', 1)])] ''see_safe'' ''danger''
       < conc_at [(''see_safe'', [(''safe'', 2), (''danger'', 1)]),
                  (''see_danger'', [(''safe'', 1), (''danger'', 1)])] ''see_safe'' ''danger''"
  by (simp add: DirichletObservation_learn_def DirichletObservation_states_def
      DirichletObservation_new_def learn_step_def slot_of_def keys_def num_at_def get_or_def
      conc_at_def)

section \<open>Kullback-Leibler divergence\<close>

lemma fold_guarded_plus:
  "fold (\<lambda>x acc. if c x then acc + f x else acc) xs a
   = (a::real) + sum_list (map (\<lambda>x. if c x then f x else 0) xs)"
  by (induction xs arbitrary: a) simp_all

lemma kl_sum:
  "Belief_kl b other =
     sum_list (map (\<lambda>s. if DiscreteBelief_probability b s > 0
                         then DiscreteBelief_probability b s *
                              ln (DiscreteBelief_probability b s /
                                  (if DiscreteBelief_probability other s = 0 then 1 / 10 ^ 10
                                   else DiscreteBelief_probability other s))
                         else 0)
                   (DiscreteBelief_states b))"
  by (simp add: Belief_kl_def Let_def fold_guarded_plus)

text \<open>The divergence of a belief from itself is \<open>0\<close>.\<close>

lemma kl_self: "Belief_kl b b = 0"
proof -
  have "(if DiscreteBelief_probability b s > 0
         then DiscreteBelief_probability b s *
              ln (DiscreteBelief_probability b s /
                  (if DiscreteBelief_probability b s = 0 then 1 / 10 ^ 10
                   else DiscreteBelief_probability b s))
         else 0) = 0" for s
    by simp
  then show ?thesis by (simp add: kl_sum)
qed

text \<open>
  Gibbs' inequality holds where the floor is not used: \<open>p\<close> sums to \<open>1\<close> over its
  states, \<open>q\<close> is non-negative with total at most \<open>1\<close> there, and \<open>q\<close> is positive
  wherever \<open>p\<close> is.
\<close>

lemma kl_term_lower:
  fixes p q :: real
  assumes "0 < p" "0 < q"
  shows "p - q \<le> p * ln (p / q)"
proof -
  have "ln (q / p) \<le> q / p - 1"
    using assms by (intro ln_le_minus_one) simp
  moreover have "ln (p / q) = - ln (q / p)"
    using assms by (simp add: ln_div)
  ultimately have "1 - q / p \<le> ln (p / q)" by simp
  then have "p * (1 - q / p) \<le> p * ln (p / q)"
    using assms by (intro mult_left_mono) simp_all
  then show ?thesis using assms by (simp add: algebra_simps)
qed

lemma kl_nonneg_supported:
  assumes p1: "sum_list (map (DiscreteBelief_probability b) (DiscreteBelief_states b)) = 1"
    and q1: "sum_list (map (DiscreteBelief_probability other) (DiscreteBelief_states b)) \<le> 1"
    and q0: "\<forall>s \<in> set (DiscreteBelief_states b). 0 \<le> DiscreteBelief_probability other s"
    and supp: "\<forall>s \<in> set (DiscreteBelief_states b).
                 0 < DiscreteBelief_probability b s \<longrightarrow> 0 < DiscreteBelief_probability other s"
    and p0: "\<forall>s \<in> set (DiscreteBelief_states b). 0 \<le> DiscreteBelief_probability b s"
  shows "0 \<le> Belief_kl b other"
proof -
  let ?P = "DiscreteBelief_probability b" and ?Q = "DiscreteBelief_probability other"
  let ?t = "\<lambda>s. if ?P s > 0
              then ?P s * ln (?P s / (if ?Q s = 0 then 1 / 10 ^ 10 else ?Q s)) else 0"
  have "?P s - ?Q s \<le> ?t s" if "s \<in> set (DiscreteBelief_states b)" for s
  proof (cases "0 < ?P s")
    case True
    then have "0 < ?Q s" using supp that by blast
    then show ?thesis using True kl_term_lower[of "?P s" "?Q s"] by simp
  next
    case False
    then have "?P s = 0" using p0 that by fastforce
    then show ?thesis using q0 that by simp
  qed
  then have "sum_list (map (\<lambda>s. ?P s - ?Q s) (DiscreteBelief_states b))
      \<le> sum_list (map ?t (DiscreteBelief_states b))"
    by (intro sum_list_mono) simp
  moreover have "sum_list (map (\<lambda>s. ?P s - ?Q s) (DiscreteBelief_states b))
      = sum_list (map ?P (DiscreteBelief_states b)) - sum_list (map ?Q (DiscreteBelief_states b))"
    by (simp add: sum_list_subtractf)
  ultimately show ?thesis using p1 q1 by (simp add: kl_sum)
qed

text \<open>
  C8. At \<open>p = {a: 1 - 10\<^sup>-\<^sup>1\<^sup>0, b: 10\<^sup>-\<^sup>1\<^sup>0}\<close> and \<open>q = {a: 1, b: 0}\<close>, two beliefs
  over the same states that each sum to \<open>1\<close>, the floor stands in for \<open>q(b)\<close> and
  the computed divergence is \<open>(1 - 10\<^sup>-\<^sup>1\<^sup>0) \<sqdot> ln (1 - 10\<^sup>-\<^sup>1\<^sup>0)\<close>, which is negative.
\<close>

theorem kl_floor_negative:
  "sum_list (map (DiscreteBelief_probability
               \<lparr>distribution = [(''a'', 1 - 1 / 10 ^ 10), (''b'', 1 / 10 ^ 10)]\<rparr>)
            (DiscreteBelief_states
               \<lparr>distribution = [(''a'', 1 - 1 / 10 ^ 10), (''b'', 1 / 10 ^ 10)]\<rparr>)) = 1
   \<and> sum_list (map (DiscreteBelief_probability \<lparr>distribution = [(''a'', 1), (''b'', 0)]\<rparr>)
            (DiscreteBelief_states \<lparr>distribution = [(''a'', 1), (''b'', 0)]\<rparr>)) = 1
   \<and> Belief_kl \<lparr>distribution = [(''a'', 1 - 1 / 10 ^ 10), (''b'', 1 / 10 ^ 10)]\<rparr>
        \<lparr>distribution = [(''a'', 1), (''b'', 0)]\<rparr>
      = (1 - 1 / 10 ^ 10) * ln (1 - 1 / 10 ^ 10)
   \<and> Belief_kl \<lparr>distribution = [(''a'', 1 - 1 / 10 ^ 10), (''b'', 1 / 10 ^ 10)]\<rparr>
        \<lparr>distribution = [(''a'', 1), (''b'', 0)]\<rparr> < 0"
proof -
  let ?e = "1 / 10 ^ 10 :: real"
  let ?p = "\<lparr>distribution = [(''a'', 1 - ?e), (''b'', ?e)]\<rparr>"
  let ?q = "\<lparr>distribution = [(''a'', 1), (''b'', 0 :: real)]\<rparr>"
  have v: "Belief_kl ?p ?q = (1 - ?e) * ln (1 - ?e)"
    by (simp add: kl_sum DiscreteBelief_states_def DiscreteBelief_probability_def keys_def
        get_or_def)
  have "ln (1 - ?e) < 0" by (intro ln_less_zero) simp_all
  then have n: "(1 - ?e) * ln (1 - ?e) < 0"
    by (intro mult_pos_neg) simp_all
  have s1: "sum_list (map (DiscreteBelief_probability ?p) (DiscreteBelief_states ?p)) = 1"
    by (simp add: DiscreteBelief_states_def DiscreteBelief_probability_def keys_def get_or_def)
  have s2: "sum_list (map (DiscreteBelief_probability ?q) (DiscreteBelief_states ?q)) = 1"
    by (simp add: DiscreteBelief_states_def DiscreteBelief_probability_def keys_def get_or_def)
  have "Belief_kl ?p ?q < 0" by (simp only: v n)
  with s1 s2 v show ?thesis by blast
qed

section \<open>Full enumeration and beam search without pruning\<close>

text \<open>Extending every policy at the end, and at the front.\<close>

lemma extend_back_cons:
  "concat (map (\<lambda>pol. map (\<lambda>a. pol @ [a]) acts) (map ((#) x) ps))
   = map ((#) x) (concat (map (\<lambda>pol. map (\<lambda>a. pol @ [a]) acts) ps))"
  by (induction ps) simp_all

lemma extend_commute:
  "concat (map (\<lambda>pol. map (\<lambda>a. pol @ [a]) acts)
             (concat (map (\<lambda>action. map ((#) action) ps) acts')))
   = concat (map (\<lambda>action. map ((#) action)
                 (concat (map (\<lambda>pol. map (\<lambda>a. pol @ [a]) acts) ps))) acts')"
  by (induction acts') (simp_all add: extend_back_cons del: map_map)

lemma generatePolicies_base: "depth \<le> 1 \<Longrightarrow> generatePolicies_rec acts depth = map (\<lambda>a. [a]) acts"
  by (simp add: generatePolicies_rec.simps)

lemma generatePolicies_front:
  "1 \<le> depth \<Longrightarrow> generatePolicies_rec acts (Suc depth)
     = concat (map (\<lambda>action. map ((#) action) (generatePolicies_rec acts depth)) acts)"
  by (subst generatePolicies_rec.simps) simp

lemma generatePolicies_back:
  "1 \<le> depth \<Longrightarrow> generatePolicies_rec acts (Suc depth)
     = concat (map (\<lambda>pol. map (\<lambda>a. pol @ [a]) acts) (generatePolicies_rec acts depth))"
proof (induction depth rule: nat_induct_at_least)
  case base
  show ?case
    by (simp add: generatePolicies_front generatePolicies_base map_concat comp_def)
next
  case (Suc n)
  have "generatePolicies_rec acts (Suc (Suc n))
      = concat (map (\<lambda>action. map ((#) action) (generatePolicies_rec acts (Suc n))) acts)"
    by (rule generatePolicies_front) simp
  also have "\<dots> = concat (map (\<lambda>action. map ((#) action)
        (concat (map (\<lambda>pol. map (\<lambda>a. pol @ [a]) acts) (generatePolicies_rec acts n)))) acts)"
    by (simp only: Suc.IH)
  also have "\<dots> = concat (map (\<lambda>pol. map (\<lambda>a. pol @ [a]) acts)
        (concat (map (\<lambda>action. map ((#) action) (generatePolicies_rec acts n)) acts)))"
    by (rule extend_commute[symmetric])
  also have "\<dots> = concat (map (\<lambda>pol. map (\<lambda>a. pol @ [a]) acts) (generatePolicies_rec acts (Suc n)))"
    using Suc.hyps by (simp only: generatePolicies_front)
  finally show ?case .
qed


text \<open>The enumeration lists every action sequence of the given length.\<close>

lemma generatePolicies_set:
  "1 \<le> depth \<Longrightarrow>
   set (generatePolicies_rec acts depth) = {pol. length pol = depth \<and> set pol \<subseteq> set acts}"
proof (induction depth rule: nat_induct_at_least)
  case base
  show ?case
  proof (rule set_eqI)
    fix pol :: "'a list"
    have "(length pol = 1 \<and> set pol \<subseteq> set acts) = (\<exists>a \<in> set acts. pol = [a])"
      by (cases pol) auto
    then show "pol \<in> set (generatePolicies_rec acts 1)
        \<longleftrightarrow> pol \<in> {pol. length pol = 1 \<and> set pol \<subseteq> set acts}"
      by (auto simp: generatePolicies_base)
  qed
next
  case (Suc n)
  show ?case
  proof (rule set_eqI)
    fix pol :: "'a list"
    have "(length pol = Suc n \<and> set pol \<subseteq> set acts)
        = (\<exists>a \<in> set acts. \<exists>sub. length sub = n \<and> set sub \<subseteq> set acts \<and> pol = a # sub)"
      by (cases pol) auto
    then show "pol \<in> set (generatePolicies_rec acts (Suc n))
        \<longleftrightarrow> pol \<in> {pol. length pol = Suc n \<and> set pol \<subseteq> set acts}"
      using Suc.hyps by (auto simp: generatePolicies_front Suc.IH)
  qed
qed

lemma length_concat_const:
  "(\<And>x. x \<in> set xs \<Longrightarrow> length (f x) = n) \<Longrightarrow> length (concat (map f xs)) = length xs * n"
  by (induction xs) simp_all

lemma generatePolicies_length:
  "1 \<le> depth \<Longrightarrow> length (generatePolicies_rec acts depth) = length acts ^ depth"
proof (induction depth rule: nat_induct_at_least)
  case base
  show ?case by (simp add: generatePolicies_base)
next
  case (Suc n)
  then show ?case
    by (simp add: generatePolicies_front length_concat_const)
qed

text \<open>Beam entries follow the policies.\<close>

lemma predicted_beliefs_snoc:
  "predicted_beliefs tm b (pol @ [a])
   = predicted_beliefs tm b pol @ [predict tm (last (b # predicted_beliefs tm b pol)) a]"
  by (induction pol arbitrary: b) simp_all

lemma policy_beam_snoc:
  "policy_beam tm scorer b (pol @ [a]) =
     \<lparr>policy = policy (policy_beam tm scorer b pol) @ [a],
      efe = efe (policy_beam tm scorer b pol) +
            scorer (predict tm (belief (policy_beam tm scorer b pol)) a),
      belief = predict tm (belief (policy_beam tm scorer b pol)) a\<rparr>"
  by (simp add: policy_beam_def cumulative_efe_def predicted_beliefs_snoc)

lemma initial_beams_policy_beam:
  "initial_beams tm scorer b = map (policy_beam tm scorer b) (map (\<lambda>a. [a]) (actions tm))"
  by (simp add: initial_beams_def policy_beam_def cumulative_efe_def Let_def)

lemma expand_beams_policy_beam:
  "expand_beams tm scorer (map (policy_beam tm scorer b) ps)
   = map (policy_beam tm scorer b) (concat (map (\<lambda>pol. map (\<lambda>a. pol @ [a]) (actions tm)) ps))"
  by (induction ps) (simp_all add: expand_beams_def Let_def policy_beam_snoc)

lemma prune_unbounded: "prune 0 beams = beams"
  by (simp add: prune_def)

lemma search_loop_unbounded:
  assumes "1 \<le> depth"
  shows "search_loop tm scorer 0 horizon depth
           (map (policy_beam tm scorer b) (generatePolicies_rec (actions tm) depth))
       = map (policy_beam tm scorer b) (generatePolicies_rec (actions tm) (max depth horizon))"
  using assms
proof (induction "horizon - depth" arbitrary: depth)
  case 0
  then have le: "\<not> depth < horizon" and m: "max depth horizon = depth" by simp_all
  show ?case unfolding m using le by (subst search_loop.simps) simp
next
  case (Suc n)
  then have lt: "depth < horizon" and n: "n = horizon - Suc depth" by simp_all
  have "search_loop tm scorer 0 horizon depth
           (map (policy_beam tm scorer b) (generatePolicies_rec (actions tm) depth))
      = search_loop tm scorer 0 horizon (Suc depth)
           (map (policy_beam tm scorer b) (generatePolicies_rec (actions tm) (Suc depth)))"
    using lt Suc.prems
    by (subst search_loop.simps)
       (simp add: prune_unbounded expand_beams_policy_beam generatePolicies_back)
  also have "\<dots> = map (policy_beam tm scorer b)
       (generatePolicies_rec (actions tm) (max (Suc depth) horizon))"
    using Suc.hyps(1)[OF n] by simp
  also have "max (Suc depth) horizon = max depth horizon" using lt by simp
  finally show ?case .
qed

lemma beam_search_unbounded:
  "beam_search tm scorer 0 horizon b
   = map (policy_beam tm scorer b) (generatePolicies_rec (actions tm) horizon)"
proof -
  have "beam_search tm scorer 0 horizon b
      = map (policy_beam tm scorer b) (generatePolicies_rec (actions tm) (max 1 horizon))"
    unfolding beam_search_def initial_beams_policy_beam
    using search_loop_unbounded[of 1 tm scorer horizon b]
    by (simp add: generatePolicies_base)
  moreover have "generatePolicies_rec (actions tm) (max 1 horizon)
      = generatePolicies_rec (actions tm) horizon"
    by (cases "horizon = 0") (simp_all add: generatePolicies_base max_def)
  ultimately show ?thesis by simp
qed

text \<open>The scoring of the earlier agent.\<close>

lemma DiscreteAgent_computeAmbiguity_eq:
  "DiscreteAgent_computeAmbiguity ag b = computeAmbiguity b (da_observationModel ag)"
  by (simp add: DiscreteAgent_computeAmbiguity_def computeAmbiguity_def)

lemma evaluatePolicy_fold:
  "fold (\<lambda>action (totalEFE, currentBelief).
           (let predicted = predict tm currentBelief action
            in (totalEFE + scorer predicted, predicted)))
        pol (acc, b)
   = (acc + cumulative_efe tm scorer b pol, last (b # predicted_beliefs tm b pol))"
  by (induction pol arbitrary: acc b) (simp_all add: cumulative_efe_def Let_def)

lemma evaluatePolicy_cumulative:
  "DiscreteAgent_evaluatePolicy ag pol =
     cumulative_efe (da_transitionModel ag)
       (\<lambda>b. computeAmbiguity b (da_observationModel ag) +
            computeRisk b (da_observationModel ag) (da_preferences ag))
       (da_belief ag) pol"
  unfolding DiscreteAgent_evaluatePolicy_def DiscreteAgent_computeAmbiguity_eq
    DiscreteAgent_computeRisk_eq
  by (simp add: evaluatePolicy_fold)


text \<open>
  C1. Let the generic agent have beam width \<open>0\<close>, and let it share the belief,
  the transition model, the horizon \<open>h \<ge> 1\<close> and the scoring (ambiguity plus risk)
  of an earlier agent. Then the beams of \<open>act\<close> carry exactly the policies of
  \<open>generatePolicies(h)\<close>, in the same order: all \<open>|actions|\<^sup>h\<close> action sequences
  of length \<open>h\<close>. Each beam's EFE is the sum of the scores of the beliefs predicted
  along its policy, which is what \<open>evaluatePolicy\<close> returns for that policy. With
  the same precision, habits and generator the two \<open>act\<close> methods return the same
  result and leave the generator in the same state.
\<close>

theorem beam_search_full_enumeration:
  assumes "agent_beamWidth new = 0"
    and "agent_planningHorizon new = da_planningHorizon old"
    and "1 \<le> da_planningHorizon old"
    and "agent_belief new = da_belief old"
    and "transitionModel new (models new) = da_transitionModel old"
    and "computeEFE new (models new) =
           (\<lambda>b. computeAmbiguity b (da_observationModel old) +
                computeRisk b (da_observationModel old) (da_preferences old))"
  shows "(let beams = beam_search (transitionModel new (models new)) (computeEFE new (models new))
                        (agent_beamWidth new) (agent_planningHorizon new) (agent_belief new);
              policies = DiscreteAgent_generatePolicies old (da_planningHorizon old)
          in map policy beams = policies
           \<and> map efe beams = map (DiscreteAgent_evaluatePolicy old) policies
           \<and> map efe beams =
               map (cumulative_efe (transitionModel new (models new)) (computeEFE new (models new))
                      (agent_belief new)) (map policy beams)
           \<and> set policies = {pol. length pol = da_planningHorizon old \<and>
                                   set pol \<subseteq> set (actions (da_transitionModel old))}
           \<and> length beams = length (actions (da_transitionModel old)) ^ da_planningHorizon old
           \<and> (agent_precision new = da_precision old \<and> agent_habits new = da_habits old \<and>
              agent_random new = da_random old \<longrightarrow>
                fst (Agent_act new) = fst (DiscreteAgent_act old) \<and>
                agent_random (snd (Agent_act new)) = da_random (snd (DiscreteAgent_act old))))"
proof -
  let ?tm = "da_transitionModel old"
  let ?sc = "\<lambda>b. computeAmbiguity b (da_observationModel old) +
                computeRisk b (da_observationModel old) (da_preferences old)"
  let ?h = "da_planningHorizon old"
  let ?ps = "generatePolicies_rec (actions ?tm) ?h"
  let ?beams = "beam_search (transitionModel new (models new)) (computeEFE new (models new))
                        (agent_beamWidth new) (agent_planningHorizon new) (agent_belief new)"
  have b: "?beams = map (policy_beam ?tm ?sc (da_belief old)) ?ps"
    by (simp only: assms beam_search_unbounded)
  have p: "map policy ?beams = ?ps"
    unfolding b by (simp add: policy_beam_def comp_def)
  have e: "map efe ?beams = map (cumulative_efe ?tm ?sc (da_belief old)) ?ps"
    unfolding b by (simp add: policy_beam_def comp_def)
  have ev: "map (DiscreteAgent_evaluatePolicy old) ?ps = map (cumulative_efe ?tm ?sc (da_belief old)) ?ps"
    by (simp add: evaluatePolicy_cumulative)
  have ev2: "map efe ?beams = map (DiscreteAgent_evaluatePolicy old) ?ps"
    by (simp only: e ev)
  have l: "length ?beams = length (actions ?tm) ^ ?h"
    unfolding b using assms(3) by (simp add: generatePolicies_length)
  have st: "set ?ps = {pol. length pol = ?h \<and> set pol \<subseteq> set (actions ?tm)}"
    using assms(3) by (rule generatePolicies_set)
  have act: "fst (Agent_act new) = fst (DiscreteAgent_act old) \<and>
      agent_random (snd (Agent_act new)) = da_random (snd (DiscreteAgent_act old))"
    if "agent_precision new = da_precision old \<and> agent_habits new = da_habits old \<and>
        agent_random new = da_random old"
    using that
    by (simp add: Agent_act_def DiscreteAgent_act_def DiscreteAgent_generatePolicies_def
        Let_def split_beta p ev2)
  have c: "map efe ?beams =
      map (cumulative_efe (transitionModel new (models new)) (computeEFE new (models new))
             (agent_belief new)) (map policy ?beams)"
    unfolding p unfolding e by (simp only: assms)
  show ?thesis
    unfolding Let_def DiscreteAgent_generatePolicies_def
    using p ev2 l st act c by (intro conjI impI) simp_all
qed


text \<open>
  The documented configuration (horizon \<open>2\<close>, no beam width) against the earlier
  agent with the same models: four policies, in the order of the enumeration, and
  the same outcome of \<open>act\<close>.
\<close>

theorem beam_search_full_enumeration_witness:
  "map policy
     (beam_search (transitionModel (projr (createAgent example_config 0)) ())
        (computeEFE (projr (createAgent example_config 0)) ())
        (agent_beamWidth (projr (createAgent example_config 0)))
        (agent_planningHorizon (projr (createAgent example_config 0)))
        (agent_belief (projr (createAgent example_config 0))))
   = [[''stay'', ''stay''], [''stay'', ''flee''], [''flee'', ''stay''], [''flee'', ''flee'']]
   \<and> fst (Agent_act (projr (createAgent example_config 0)))
       = fst (DiscreteAgent_act example_discrete_agent)"
proof -
  let ?new = "projr (createAgent example_config 0)"
  let ?old = "example_discrete_agent"
  have m: "models ?new = ()" by simp
  have h1: "agent_beamWidth ?new = 0"
    by (simp add: createAgent_def Agent_new_def example_config_def)
  have h2: "agent_planningHorizon ?new = da_planningHorizon ?old"
    by (simp add: createAgent_def Agent_new_def example_config_def example_discrete_agent_def)
  have h3: "1 \<le> da_planningHorizon ?old"
    by (simp add: example_discrete_agent_def)
  have h4: "agent_belief ?new = da_belief ?old"
    by (simp add: createAgent_def Agent_new_def example_config_def example_discrete_agent_def)
  have h5: "transitionModel ?new (models ?new) = da_transitionModel ?old"
    by (simp add: createAgent_def Agent_new_def example_config_def example_discrete_agent_def)
  have h6: "computeEFE ?new (models ?new) =
           (\<lambda>b. computeAmbiguity b (da_observationModel ?old) +
                computeRisk b (da_observationModel ?old) (da_preferences ?old))"
    by (rule ext)
       (simp add: createAgent_def Agent_new_def createAgent_computeEFE_def example_config_def
         example_discrete_agent_def)
  have h7: "agent_precision ?new = da_precision ?old \<and> agent_habits ?new = da_habits ?old \<and>
      agent_random ?new = da_random ?old"
    by (simp add: createAgent_def Agent_new_def example_config_def example_discrete_agent_def)
  have ps: "DiscreteAgent_generatePolicies ?old (da_planningHorizon ?old)
      = [[''stay'', ''stay''], [''stay'', ''flee''], [''flee'', ''stay''], [''flee'', ''flee'']]"
    by (simp add: DiscreteAgent_generatePolicies_def example_discrete_agent_def
        DiscreteTransition_model_def example_transition_def keys_def generatePolicies_rec.simps)
  note t = beam_search_full_enumeration[OF h1 h2 h3 h4 h5 h6, unfolded Let_def]
  from t have "map policy
     (beam_search (transitionModel ?new (models ?new)) (computeEFE ?new (models ?new))
        (agent_beamWidth ?new) (agent_planningHorizon ?new) (agent_belief ?new))
     = DiscreteAgent_generatePolicies ?old (da_planningHorizon ?old)"
    by blast
  moreover from t h7 have "fst (Agent_act ?new) = fst (DiscreteAgent_act ?old)"
    by blast
  ultimately show ?thesis by (simp only: ps m)
qed

section \<open>What act reads and writes\<close>

text \<open>The search returns no beam exactly when there is no action.\<close>

lemma initial_beams_length: "length (initial_beams tm scorer b) = length (actions tm)"
  by (simp add: initial_beams_def)

lemma expand_beams_empty: "expand_beams tm scorer [] = []"
  by (simp add: expand_beams_def)

lemma expand_beams_nonempty:
  "beams \<noteq> [] \<Longrightarrow> actions tm \<noteq> [] \<Longrightarrow> expand_beams tm scorer beams \<noteq> []"
  by (cases beams) (simp_all add: expand_beams_def)

lemma prune_length:
  "length (prune w beams) = (if 0 < w \<and> w < length beams then w else length beams)"
  by (simp add: prune_def)

lemma prune_empty_iff: "prune w beams = [] \<longleftrightarrow> beams = []"
  using prune_length[of w beams] by (auto simp del: length_0_conv simp: length_0_conv[symmetric])

lemma prune_subset: "set (prune w beams) \<subseteq> set beams"
  using set_take_subset[of w "sort_key efe beams"] by (auto simp: prune_def)

lemma search_loop_empty: "search_loop tm scorer w horizon depth [] = []"
proof (induction "horizon - depth" arbitrary: depth)
  case 0
  then show ?case by (subst search_loop.simps) simp
next
  case (Suc n)
  then have "n = horizon - Suc depth" by simp
  from Suc.hyps(1)[OF this] show ?case
    by (subst search_loop.simps) (simp add: expand_beams_empty prune_empty_iff[THEN iffD2])
qed

lemma search_loop_nonempty:
  assumes "actions tm \<noteq> []" and "beams \<noteq> []"
  shows "search_loop tm scorer w horizon depth beams \<noteq> []"
  using assms(2)
proof (induction "horizon - depth" arbitrary: depth beams)
  case 0
  then show ?case by (subst search_loop.simps) simp
next
  case (Suc n)
  then have n: "n = horizon - Suc depth" by simp
  have "prune w (expand_beams tm scorer beams) \<noteq> []"
    using expand_beams_nonempty[OF Suc.prems assms(1)] by (simp add: prune_empty_iff)
  from Suc.hyps(1)[OF n this] Suc.prems show ?case
    by (subst search_loop.simps) simp
qed

lemma beam_search_empty_iff: "beam_search tm scorer w horizon b = [] \<longleftrightarrow> actions tm = []"
proof
  assume e: "beam_search tm scorer w horizon b = []"
  show "actions tm = []"
  proof (rule ccontr)
    assume a: "actions tm \<noteq> []"
    then have "initial_beams tm scorer b \<noteq> []"
      using initial_beams_length[of tm scorer b] by auto
    from search_loop_nonempty[OF a this] e show False
      by (simp add: beam_search_def)
  qed
next
  assume "actions tm = []"
  then have "initial_beams tm scorer b = []"
    using initial_beams_length[of tm scorer b] by simp
  then show "beam_search tm scorer w horizon b = []"
    by (simp add: beam_search_def search_loop_empty)
qed

text \<open>Every surviving policy is a non-empty sequence of actions of the model.\<close>

lemma initial_beams_policies:
  "bm \<in> set (initial_beams tm scorer b) \<Longrightarrow> policy bm \<noteq> [] \<and> set (policy bm) \<subseteq> set (actions tm)"
  by (auto simp: initial_beams_def Let_def)

lemma expand_beams_policies:
  assumes "\<forall>bm \<in> set beams. policy bm \<noteq> [] \<and> set (policy bm) \<subseteq> set (actions tm)"
    and "bm \<in> set (expand_beams tm scorer beams)"
  shows "policy bm \<noteq> [] \<and> set (policy bm) \<subseteq> set (actions tm)"
  using assms by (fastforce simp: expand_beams_def Let_def)

lemma search_loop_policies:
  assumes "\<forall>bm \<in> set beams. policy bm \<noteq> [] \<and> set (policy bm) \<subseteq> set (actions tm)"
  shows "\<forall>bm \<in> set (search_loop tm scorer w horizon depth beams).
           policy bm \<noteq> [] \<and> set (policy bm) \<subseteq> set (actions tm)"
  using assms
proof (induction "horizon - depth" arbitrary: depth beams)
  case 0
  then show ?case by (subst search_loop.simps) simp
next
  case (Suc n)
  then have n: "n = horizon - Suc depth" by simp
  have "\<forall>bm \<in> set (prune w (expand_beams tm scorer beams)).
      policy bm \<noteq> [] \<and> set (policy bm) \<subseteq> set (actions tm)"
    using expand_beams_policies[OF Suc.prems] prune_subset[of w "expand_beams tm scorer beams"]
    by blast
  from Suc.hyps(1)[OF n this] Suc.prems show ?case
    by (subst search_loop.simps) simp
qed

lemma beam_search_policies:
  "bm \<in> set (beam_search tm scorer w horizon b) \<Longrightarrow>
   policy bm \<noteq> [] \<and> set (policy bm) \<subseteq> set (actions tm)"
  using search_loop_policies[of "initial_beams tm scorer b" tm scorer w horizon 1]
    initial_beams_policies[of _ tm scorer b]
  by (auto simp: beam_search_def)

text \<open>Softmin, the draw and the selection.\<close>

lemma softmin_empty: "softmin [] beta = Inl TypeError"
  by (simp add: softmin_def softmax_def)

lemma softmin_nonempty:
  "arr \<noteq> [] \<Longrightarrow> \<exists>probs. softmin arr beta = Inr probs \<and> length probs = length arr"
  by (cases arr) (simp_all add: softmin_def softmax_def Let_def)

lemma sampleIndex_loop_range:
  "sampleIndex_loop rand probs i c = Some j \<Longrightarrow> i \<le> j \<and> j < i + int (length probs)"
proof (induction probs arbitrary: i c)
  case Nil
  then show ?case by simp
next
  case (Cons p probs)
  show ?case
  proof (cases "rand < c + p")
    case True
    with Cons.prems show ?thesis by simp
  next
    case False
    with Cons.prems have "sampleIndex_loop rand probs (i + 1) (c + p) = Some j" by simp
    from Cons.IH[OF this] show ?thesis by simp
  qed
qed

lemma sampleIndex_generator: "snd (sampleIndex r probs) = snd (Random_next r)"
  by (simp add: sampleIndex_def split_beta split: option.splits)

lemma sampleIndex_range:
  "probs \<noteq> [] \<Longrightarrow> 0 \<le> fst (sampleIndex r probs) \<and> fst (sampleIndex r probs) < int (length probs)"
  using sampleIndex_loop_range[of "fst (Random_next r)" probs 0 0]
  by (auto simp: sampleIndex_def split_beta split: option.splits)

lemma select_action_empty: "select_action [] [] beta habits r = (Inl TypeError, r)"
  by (simp add: select_action_def softmin_empty)

lemma select_action_nonempty:
  assumes "policies \<noteq> []" and "length efes = length policies"
  shows "\<exists>i < length policies.
           select_action policies efes beta habits r = (Inr (hd (policies ! i)), snd (Random_next r))"
proof -
  from assms have "efes \<noteq> []" by auto
  from softmin_nonempty[OF this] obtain probs where
    p: "softmin efes beta = Inr probs" and l: "length probs = length policies"
    using assms(2) by auto
  let ?pp = "if length (keys habits) > 0
             then LinearAlgebra_normalize
                    (map (\<lambda>(p, pol). p * getPolicyHabit habits pol) (zip probs policies))
             else probs"
  have lp: "length ?pp = length policies"
    using l by (simp add: LinearAlgebra_normalize_def Let_def)
  then have ne: "?pp \<noteq> []" using assms(1) by auto
  let ?idx = "fst (sampleIndex r ?pp)"
  have rng: "0 \<le> ?idx \<and> nat ?idx < length policies"
    using sampleIndex_range[OF ne, of r] lp by auto
  have "select_action policies efes beta habits r
      = (Inr (hd (policies ! nat ?idx)), snd (Random_next r))"
    using rng sampleIndex_generator[of r ?pp]
    by (simp add: select_action_def p Let_def split_beta)
  with rng show ?thesis by blast
qed


lemma Random_next_42: "snd (Random_next (Random_new 42)) = \<lparr>state = 1831565855\<rparr>"
  by (simp add: Random_next_def Random_new_def Let_def)

lemma Agent_act_select:
  "Agent_act ag =
     (fst (select_action
             (map policy (beam_search (transitionModel ag (models ag)) (computeEFE ag (models ag))
                            (agent_beamWidth ag) (agent_planningHorizon ag) (agent_belief ag)))
             (map efe (beam_search (transitionModel ag (models ag)) (computeEFE ag (models ag))
                         (agent_beamWidth ag) (agent_planningHorizon ag) (agent_belief ag)))
             (agent_precision ag) (agent_habits ag) (agent_random ag)),
      ag\<lparr>agent_random :=
           snd (select_action
                  (map policy (beam_search (transitionModel ag (models ag)) (computeEFE ag (models ag))
                                 (agent_beamWidth ag) (agent_planningHorizon ag) (agent_belief ag)))
                  (map efe (beam_search (transitionModel ag (models ag)) (computeEFE ag (models ag))
                              (agent_beamWidth ag) (agent_planningHorizon ag) (agent_belief ag)))
                  (agent_precision ag) (agent_habits ag) (agent_random ag))\<rparr>)"
  by (simp add: Agent_act_def Let_def split_beta)

lemma Agent_act_no_action:
  assumes "actions (transitionModel ag (models ag)) = []"
  shows "Agent_act ag = (Inl TypeError, ag)"
  unfolding Agent_act_select beam_search_empty_iff[THEN iffD2, OF assms]
  by (simp add: select_action_empty)

lemma Agent_act_some_action:
  assumes ne: "actions (transitionModel ag (models ag)) \<noteq> []"
  shows "\<exists>a \<in> set (actions (transitionModel ag (models ag))).
           Agent_act ag = (Inr a, ag\<lparr>agent_random := snd (Random_next (agent_random ag))\<rparr>)"
proof -
  let ?tm = "transitionModel ag (models ag)"
  let ?beams = "beam_search ?tm (computeEFE ag (models ag))
                    (agent_beamWidth ag) (agent_planningHorizon ag) (agent_belief ag)"
  from ne have b: "map policy ?beams \<noteq> []"
    by (simp add: beam_search_empty_iff)
  from select_action_nonempty[OF b, of "map efe ?beams" "agent_precision ag" "agent_habits ag"
      "agent_random ag"]
  obtain i where i: "i < length ?beams" and
    sel: "select_action (map policy ?beams) (map efe ?beams)
            (agent_precision ag) (agent_habits ag) (agent_random ag)
          = (Inr (hd (map policy ?beams ! i)), snd (Random_next (agent_random ag)))"
    by auto
  from i have "?beams ! i \<in> set ?beams" by simp
  from beam_search_policies[OF this] have "hd (policy (?beams ! i)) \<in> set (actions ?tm)"
    by (cases "policy (?beams ! i)") auto
  then have "hd (map policy ?beams ! i) \<in> set (actions ?tm)"
    using i by simp
  then show ?thesis unfolding Agent_act_select sel by auto
qed

lemma Agent_act_unwritten:
  "agent_belief (snd (Agent_act ag)) = agent_belief ag"
  "agent_previousBelief (snd (Agent_act ag)) = agent_previousBelief ag"
  "agent_previousAction (snd (Agent_act ag)) = agent_previousAction ag"
  "models (snd (Agent_act ag)) = models ag"
  unfolding Agent_act_select by simp_all

text \<open>
  C9 (amended). \<open>act\<close> never writes the belief, the previous belief, the previous
  action or the models. When the transition model has at least one action, \<open>act\<close>
  returns one of its actions and the generator has advanced by exactly one draw.
  When it has none, softmin reduces an empty array: \<open>act\<close> raises before the draw
  and the agent is left exactly as it was.
\<close>

theorem act_frame:
  "(actions (transitionModel ag (models ag)) \<noteq> [] \<longrightarrow>
      (\<exists>a \<in> set (actions (transitionModel ag (models ag))).
         Agent_act ag = (Inr a, ag\<lparr>agent_random := snd (Random_next (agent_random ag))\<rparr>)))
   \<and> (actions (transitionModel ag (models ag)) = [] \<longrightarrow> Agent_act ag = (Inl TypeError, ag))
   \<and> agent_belief (snd (Agent_act ag)) = agent_belief ag
   \<and> agent_previousBelief (snd (Agent_act ag)) = agent_previousBelief ag
   \<and> agent_previousAction (snd (Agent_act ag)) = agent_previousAction ag
   \<and> models (snd (Agent_act ag)) = models ag"
  using Agent_act_some_action[of ag] Agent_act_no_action[of ag] Agent_act_unwritten[of ag]
  by blast

text \<open>
  The documented agent has the actions \<open>stay\<close> and \<open>flee\<close>: \<open>act\<close> returns one of
  them and moves the generator from seed \<open>42\<close> to its next state.
\<close>

theorem act_frame_witness:
  "(\<exists>a. a \<in> set [''stay'', ''flee''] \<and>
        fst (Agent_act (projr (createAgent example_config 0))) = Inr a)
   \<and> agent_random (snd (Agent_act (projr (createAgent example_config 0))))
       = \<lparr>state = 1831565855\<rparr>
   \<and> agent_belief (snd (Agent_act (projr (createAgent example_config 0))))
       = \<lparr>distribution = [(''safe'', 1 / 2), (''danger'', 1 / 2)]\<rparr>"
proof -
  let ?ag = "projr (createAgent example_config 0)"
  have a: "actions (transitionModel ?ag (models ?ag)) = [''stay'', ''flee'']"
    by (simp add: createAgent_def Agent_new_def example_config_def DiscreteTransition_model_def
        example_transition_def keys_def)
  have r: "agent_random ?ag = Random_new 42"
    by (simp add: createAgent_def Agent_new_def example_config_def)
  have b: "agent_belief ?ag = \<lparr>distribution = [(''safe'', 1 / 2), (''danger'', 1 / 2)]\<rparr>"
    by (simp add: createAgent_def Agent_new_def example_config_def)
  from act_frame[of ?ag] a
  obtain x where x: "x \<in> set [''stay'', ''flee'']"
    and res: "Agent_act ?ag = (Inr x, ?ag\<lparr>agent_random := snd (Random_next (agent_random ?ag))\<rparr>)"
    by auto
  from res have "fst (Agent_act ?ag) = Inr x"
    and "agent_random (snd (Agent_act ?ag)) = snd (Random_next (Random_new 42))"
    and "agent_belief (snd (Agent_act ?ag)) = agent_belief ?ag"
    by (simp_all add: r)
  with x show ?thesis unfolding Random_next_42 b by blast
qed

text \<open>
  C9 as stated fails for an agent whose transition model has no action: \<open>act\<close>
  raises and the generator has not moved, although one draw would have changed it.
\<close>

theorem act_no_action_counterexample:
  "fst (Agent_act (projr (createGaussianAgent degenerate_config 0))) = Inl TypeError
   \<and> agent_random (snd (Agent_act (projr (createGaussianAgent degenerate_config 0))))
       = agent_random (projr (createGaussianAgent degenerate_config 0))
   \<and> agent_random (projr (createGaussianAgent degenerate_config 0))
       \<noteq> snd (Random_next (agent_random (projr (createGaussianAgent degenerate_config 0))))"
proof -
  let ?ag = "projr (createGaussianAgent degenerate_config 0)"
  have a: "actions (transitionModel ?ag (models ?ag)) = []"
    by (simp add: createGaussianAgent_def Agent_new_def degenerate_config_def
        GaussianTransition_model_def GaussianTransition_new_def keys_def)
  have r: "agent_random ?ag = Random_new 42"
    by (simp add: createGaussianAgent_def Agent_new_def degenerate_config_def)
  have "Agent_act ?ag = (Inl TypeError, ?ag)"
    by (rule Agent_act_no_action[OF a])
  moreover have "agent_random ?ag \<noteq> snd (Random_next (agent_random ?ag))"
    unfolding r Random_next_42 by (simp add: Random_new_def)
  ultimately show ?thesis by simp
qed

section \<open>Construction\<close>

lemma Agent_new_result:
  "Agent_new b tm upd scorer random h prec habits w after m now =
     Inr (projr (Agent_new b tm upd scorer random h prec habits w after m now))"
  by (simp add: Agent_new_def)

lemma Agent_new_fields:
  "agent_belief (projr (Agent_new b tm upd scorer random h prec habits w after m now)) = b"
  "1 \<le> agent_planningHorizon (projr (Agent_new b tm upd scorer random h prec habits w after m now))"
  "0 \<le> agent_precision (projr (Agent_new b tm upd scorer random h prec habits w after m now))"
  "transitionModel (projr (Agent_new b tm upd scorer random h prec habits w after m now)) = tm"
  "models (projr (Agent_new b tm upd scorer random h prec habits w after m now)) = m"
  by (simp_all add: Agent_new_def)

text \<open>
  C4 (amended). Construction validates nothing and never raises: for every
  argument, the constructor and both factories return an agent that holds the
  given belief, whatever its variance or state set, with the horizon clamped to at
  least \<open>1\<close> and the precision to at least \<open>0\<close>. An empty action set shows only
  later: \<open>act\<close> on the constructed agent raises inside the search.
\<close>

theorem construction_never_raises:
  "(\<exists>ag. Agent_new b tm upd scorer random h prec habits w after m now = Inr ag \<and>
         agent_belief ag = b \<and> 1 \<le> agent_planningHorizon ag \<and> 0 \<le> agent_precision ag \<and>
         (actions (tm m) = [] \<longrightarrow> fst (Agent_act ag) = Inl TypeError))
   \<and> (\<exists>ag. createAgent config now = Inr ag \<and> agent_belief ag = cfg_belief config \<and>
         (actions (cfg_transitionModel config (cfg_models config)) = [] \<longrightarrow>
            fst (Agent_act ag) = Inl TypeError))
   \<and> (\<exists>ag. createGaussianAgent gconfig now = Inr ag \<and>
         agent_belief ag = gcfg_belief gconfig \<and>
         (gt_actions (gcfg_transitionModel gconfig) = [] \<longrightarrow>
            fst (Agent_act ag) = Inl TypeError))"
proof (intro conjI)
  let ?ag = "projr (Agent_new b tm upd scorer random h prec habits w after m now)"
  have "actions (tm m) = [] \<longrightarrow> fst (Agent_act ?ag) = Inl TypeError"
    using Agent_act_no_action[of ?ag] by (simp add: Agent_new_fields)
  then show "\<exists>ag. Agent_new b tm upd scorer random h prec habits w after m now = Inr ag \<and>
         agent_belief ag = b \<and> 1 \<le> agent_planningHorizon ag \<and> 0 \<le> agent_precision ag \<and>
         (actions (tm m) = [] \<longrightarrow> fst (Agent_act ag) = Inl TypeError)"
    using Agent_new_result[of b tm upd scorer random h prec habits w after m now]
      Agent_new_fields(1-3)[of b tm upd scorer random h prec habits w after m now]
    by blast
next
  let ?ag = "projr (createAgent config now)"
  have r: "createAgent config now = Inr ?ag"
    unfolding createAgent_def Let_def by (rule Agent_new_result)
  have f: "agent_belief ?ag = cfg_belief config"
    "transitionModel ?ag = cfg_transitionModel config" "models ?ag = cfg_models config"
    unfolding createAgent_def Let_def by (simp_all add: Agent_new_fields)
  have "actions (cfg_transitionModel config (cfg_models config)) = [] \<longrightarrow>
      fst (Agent_act ?ag) = Inl TypeError"
    using Agent_act_no_action[of ?ag] by (simp add: f)
  with r f(1) show "\<exists>ag. createAgent config now = Inr ag \<and> agent_belief ag = cfg_belief config \<and>
         (actions (cfg_transitionModel config (cfg_models config)) = [] \<longrightarrow>
            fst (Agent_act ag) = Inl TypeError)"
    by blast
next
  let ?ag = "projr (createGaussianAgent gconfig now)"
  have r: "createGaussianAgent gconfig now = Inr ?ag"
    unfolding createGaussianAgent_def Let_def by (rule Agent_new_result)
  have f: "agent_belief ?ag = gcfg_belief gconfig"
    "transitionModel ?ag = (\<lambda>m. GaussianTransition_model (gcfg_transitionModel gconfig))"
    unfolding createGaussianAgent_def Let_def
    by (simp_all add: Agent_new_fields GaussianBelief_copy_def)
  have "actions (transitionModel ?ag (models ?ag)) = gt_actions (gcfg_transitionModel gconfig)"
    by (simp add: f GaussianTransition_model_def)
  then have "gt_actions (gcfg_transitionModel gconfig) = [] \<longrightarrow> fst (Agent_act ?ag) = Inl TypeError"
    using Agent_act_no_action[of ?ag] by auto
  with r f(1) show "\<exists>ag. createGaussianAgent gconfig now = Inr ag \<and>
         agent_belief ag = gcfg_belief gconfig \<and>
         (gt_actions (gcfg_transitionModel gconfig) = [] \<longrightarrow>
            fst (Agent_act ag) = Inl TypeError)"
    by blast
qed

text \<open>
  The degenerate Gaussian configuration is accepted, and the first \<open>act\<close> of the
  agent it yields raises.
\<close>

theorem construction_never_raises_witness:
  "\<exists>ag. createGaussianAgent degenerate_config 0 = Inr ag \<and>
        variance (agent_belief ag) = - 1 \<and> fst (Agent_act ag) = Inl TypeError"
proof -
  have a: "gt_actions (gcfg_transitionModel degenerate_config) = []"
    by (simp add: degenerate_config_def GaussianTransition_new_def keys_def)
  have v: "variance (gcfg_belief degenerate_config) = - 1"
    by (simp add: degenerate_config_def)
  note t = conjunct2[OF conjunct2[OF
        construction_never_raises[where gconfig = degenerate_config and now = 0]]]
  from t a
  obtain ag where "createGaussianAgent degenerate_config 0 = Inr ag"
    and "agent_belief ag = gcfg_belief degenerate_config"
    and "fst (Agent_act ag) = Inl TypeError"
    by blast
  with v show ?thesis by auto
qed

text \<open>
  C4 as stated fails: the configuration with variance \<open>-1\<close> and no action is not
  rejected by the factory.
\<close>

theorem construction_counterexample:
  "variance (gcfg_belief degenerate_config) \<le> 0
   \<and> gt_actions (gcfg_transitionModel degenerate_config) = []
   \<and> \<not> isl (createGaussianAgent degenerate_config 0)"
  by (simp add: degenerate_config_def GaussianTransition_new_def keys_def
      createGaussianAgent_def Agent_new_def)

section \<open>Unknown observation keys\<close>

lemma normalize_unknown:
  "ob \<notin> set (DirichletObservation_observations m) \<Longrightarrow>
   map_of (DirichletObservation_normalize m) ob = None"
  by (simp add: DirichletObservation_normalize_def Let_def map_of_tabulate)

lemma normalize_cache_irrelevant:
  "DirichletObservation_normalize (m\<lparr>matrix_cache := c\<rparr>) = DirichletObservation_normalize m"
  by (simp add: DirichletObservation_normalize_def DirichletObservation_observations_def
      DirichletObservation_states_def Let_def)

lemma matrix_of_valid:
  "cache_valid m \<Longrightarrow> fst (DirichletObservation_matrix m) = DirichletObservation_normalize m"
  by (simp add: cache_valid_def DirichletObservation_matrix_def Let_def split: option.splits)

text \<open>The cache stays valid: after construction, after a read and after \<open>learn\<close>.\<close>

lemma cache_valid_new: "cache_valid (DirichletObservation_new conc)"
  by (simp add: cache_valid_def DirichletObservation_new_def)

lemma cache_valid_matrix: "cache_valid m \<Longrightarrow> cache_valid (snd (DirichletObservation_matrix m))"
  by (simp add: cache_valid_def DirichletObservation_matrix_def Let_def
      normalize_cache_irrelevant split: option.splits)

lemma cache_valid_learn: "DirichletObservation_learn m ob p = Inr m' \<Longrightarrow> cache_valid m'"
  by (auto simp: cache_valid_def DirichletObservation_learn_def split: sum.splits)

lemma unknown_observation_slot:
  "ob \<notin> set (DirichletObservation_observations m) \<Longrightarrow>
   slot_of (concentrations m) ob =
     (if ob \<in> set Object_prototype_members then Inherited else Missing)"
proof -
  assume "ob \<notin> set (DirichletObservation_observations m)"
  then have "map_of (concentrations m) ob = None"
    by (simp add: DirichletObservation_observations_def keys_def map_of_eq_None_iff)
  then show ?thesis
    by (simp add: slot_of_def)
qed

lemma normalize_unknown_slot:
  "ob \<notin> set (DirichletObservation_observations m) \<Longrightarrow>
   slot_of (DirichletObservation_normalize m) ob =
     (if ob \<in> set Object_prototype_members then Inherited else Missing)"
  by (simp add: slot_of_def normalize_unknown)

text \<open>
  A key that names a member of \<open>Object.prototype\<close> does not reach the missing row:
  \<open>learn\<close> leaves the pseudo-counts as they are and raises only if the engine
  refuses one of the writes to the built-in object, and the reads return what the
  built-in object holds.
\<close>

lemma fold_learn_step_inherited:
  assumes "slot_of conc ob = Inherited"
  shows "fold (learn_step ob p) ss (Inr conc) =
           (if \<exists>s \<in> set ss. builtin_protects ob s then Inl TypeError else Inr conc)"
  using assms
  by (induction ss) (simp_all add: learn_step_def fold_learn_step_error)

lemma learn_inherited_observation:
  assumes "ob \<notin> set (DirichletObservation_observations m)"
    and "ob \<in> set Object_prototype_members"
  shows "DirichletObservation_learn m ob p =
           (if \<exists>s \<in> set (DirichletObservation_states m). builtin_protects ob s
            then Inl TypeError
            else Inr \<lparr>concentrations = concentrations m, matrix_cache = None\<rparr>)"
  using unknown_observation_slot[OF assms(1)] assms(2)
  by (simp add: DirichletObservation_learn_def fold_learn_step_inherited)

lemma read_inherited_observation:
  assumes "ob \<notin> set (DirichletObservation_observations m)"
    and "ob \<in> set Object_prototype_members" and "cache_valid m"
  shows "fst (DirichletObservation_getLikelihood m ob) = builtin_member ob"
    and "fst (DirichletObservation_probability m ob s) = builtin_entry ob s"
  using matrix_of_valid[OF assms(3)] normalize_unknown_slot[OF assms(1)] assms(2)
  by (simp_all add: DirichletObservation_getLikelihood_def matrix_getLikelihood_def
      DirichletObservation_probability_def matrix_probability_def split_beta)

text \<open>
  C10 (amended). Take an observation key that is neither configured nor the name of
  a member of \<open>Object.prototype\<close>. Then \<open>learn\<close> raises as soon as the model has at
  least one state: the first round reads a missing row. A model without states
  runs no round and returns normally. The read-side lookups do not raise:
  \<open>probability\<close> gives \<open>0\<close> and \<open>getLikelihood\<close> the empty likelihood.
\<close>

theorem learn_unknown_observation:
  assumes "ob \<notin> set (DirichletObservation_observations m)"
    and "ob \<notin> set Object_prototype_members"
  shows "(DirichletObservation_states m \<noteq> [] \<longrightarrow>
            DirichletObservation_learn m ob p = Inl TypeError)
       \<and> (DirichletObservation_states m = [] \<longrightarrow>
            DirichletObservation_learn m ob p =
              Inr \<lparr>concentrations = concentrations m, matrix_cache = None\<rparr>)
       \<and> (cache_valid m \<longrightarrow>
            fst (DirichletObservation_probability m ob s) = 0 \<and>
            fst (DirichletObservation_getLikelihood m ob) = [])"
proof (intro conjI impI)
  assume "DirichletObservation_states m \<noteq> []"
  then obtain s0 ss where ss: "DirichletObservation_states m = s0 # ss"
    by (cases "DirichletObservation_states m") auto
  have "learn_step ob p s0 (Inr (concentrations m)) = Inl TypeError"
    using unknown_observation_slot[OF assms(1)] assms(2) by (simp add: learn_step_def)
  then show "DirichletObservation_learn m ob p = Inl TypeError"
    by (simp add: DirichletObservation_learn_def ss fold_learn_step_error)
next
  assume "DirichletObservation_states m = []"
  then show "DirichletObservation_learn m ob p =
      Inr \<lparr>concentrations = concentrations m, matrix_cache = None\<rparr>"
    by (simp add: DirichletObservation_learn_def)
next
  assume v: "cache_valid m"
  show "fst (DirichletObservation_probability m ob s) = 0"
    using matrix_of_valid[OF v] normalize_unknown_slot[OF assms(1)] assms(2)
    by (simp add: DirichletObservation_probability_def matrix_probability_def split_beta)
next
  assume v: "cache_valid m"
  show "fst (DirichletObservation_getLikelihood m ob) = []"
    using matrix_of_valid[OF v] normalize_unknown_slot[OF assms(1)] assms(2)
    by (simp add: DirichletObservation_getLikelihood_def matrix_getLikelihood_def split_beta)
qed

theorem learn_unknown_observation_witness:
  "DirichletObservation_learn
     (DirichletObservation_new
        [(''see_safe'', [(''safe'', 1), (''danger'', 1)]),
         (''see_danger'', [(''safe'', 1), (''danger'', 1)])])
     ''see_nothing'' [(''safe'', 1), (''danger'', 0)] = Inl TypeError
   \<and> fst (DirichletObservation_probability
        (DirichletObservation_new
           [(''see_safe'', [(''safe'', 1), (''danger'', 1)]),
            (''see_danger'', [(''safe'', 1), (''danger'', 1)])])
        ''see_nothing'' ''safe'') = 0
   \<and> fst (DirichletObservation_getLikelihood
        (DirichletObservation_new
           [(''see_safe'', [(''safe'', 1), (''danger'', 1)]),
            (''see_danger'', [(''safe'', 1), (''danger'', 1 :: real)])])
        ''see_nothing'') = ([] :: (string \<times> real) list)"
proof -
  let ?m = "DirichletObservation_new
        [(''see_safe'', [(''safe'', 1), (''danger'', 1 :: real)]),
         (''see_danger'', [(''safe'', 1), (''danger'', 1)])]"
  have h: "''see_nothing'' \<notin> set (DirichletObservation_observations ?m)"
    by (simp add: DirichletObservation_observations_def DirichletObservation_new_def keys_def)
  have i: "''see_nothing'' \<notin> set Object_prototype_members"
    by (simp add: Object_prototype_members_def)
  have st: "DirichletObservation_states ?m \<noteq> []"
    by (simp add: DirichletObservation_states_def DirichletObservation_new_def keys_def)
  from learn_unknown_observation[OF h i, of "[(''safe'', 1), (''danger'', 0)]" "''safe''"]
    st cache_valid_new[of "concentrations ?m"]
  show ?thesis
    by (simp add: DirichletObservation_new_def)
qed

text \<open>
  C10 as stated fails for a model without states: the loop of \<open>learn\<close> has
  nothing to run over, so the missing row is never read and the call returns.
\<close>

theorem learn_unknown_no_states_counterexample:
  "DirichletObservation_learn
     (DirichletObservation_new [(''see_safe'', ([] :: (string \<times> real) list))])
     ''see_nothing'' [(''safe'', 1)]
   = Inr \<lparr>concentrations = [(''see_safe'', [])], matrix_cache = None\<rparr>"
  by (simp add: DirichletObservation_learn_def DirichletObservation_states_def
      DirichletObservation_new_def keys_def)

section \<open>Reproducibility\<close>



text \<open>Without a seed the clock decides the generator: agents built at different times differ.\<close>

lemma unseeded_agents_differ:
  "cfg_seed config = None \<Longrightarrow> now1 \<noteq> now2 \<Longrightarrow> createAgent config now1 \<noteq> createAgent config now2"
  by (simp add: createAgent_def Agent_new_def Random_new_def)













subsection \<open>One step of two agents on the learning configuration\<close>





























end
